theory Spec2Isabelle
  imports Complex_Main "HOL-Library.Char_ord" "HOL-Library.List_Lexorder"
begin

section \<open>Data model\<close>

text \<open>
  The deal reconciliation engine. The file \<^verbatim>\<open>src/lib/model/database.ts\<close> of the sources
  holds three modules one after the other: the action generator (\<^verbatim>\<open>ActionGenerator\<close>,
  lines 143 to 261) and the deal engine (\<^verbatim>\<open>generateDeals\<close> and the class
  \<^verbatim>\<open>DealActionGenerator\<close>, lines 262 to 650) are modelled here; line numbers below are
  those of that file.

  Only the fields the engine reads are kept. Dates, license types, statuses and sale types
  are JavaScript strings and stay strings; strings are compared by code unit, which is the
  order of \<open>Char_ord\<close> and \<open>List_Lexorder\<close> on ASCII text. A JavaScript number (always
  finite here: it comes from JSON) is a rational.
\<close>

record contactInfo =
  email :: string

record contactDetails =
  technicalContact :: contactInfo
  billingContact :: "contactInfo option"
  country :: string

record partnerDetails =
  partnerBillingContact :: "contactInfo option"

record license =
  addonLicenseId :: string
  addonKey :: string
  licenseType :: string
  status :: string
  maintenanceStartDate :: string
  hosting :: string
  contactDetails :: contactDetails
  partnerDetails :: "partnerDetails option"

record purchaseDetails =
  saleDate :: string
  saleType :: string
  vendorAmount :: rat

record transaction =
  transactionId :: string
  txAddonLicenseId :: string
  purchaseDetails :: purchaseDetails

text \<open>\<^verbatim>\<open>LicenseContext = { license, transactions }\<close>; a \<^verbatim>\<open>RelatedLicenseSet\<close> is a list of them.\<close>

record licenseContext =
  license :: license
  transactions :: "transaction list"

type_synonym relatedLicenseSet = "licenseContext list"

datatype DealStage = EVAL | CLOSED_WON | CLOSED_LOST

text \<open>
  A property bag is a JavaScript object with string keys: an association list with the
  keys in insertion order. The value of \<^verbatim>\<open>dealstage\<close> is a \<open>DealStage\<close>, every other
  value a string; a deal read from the CRM in a stage the engine does not name carries it
  as a string.
\<close>

datatype propval = Str string | Stage DealStage

type_synonym props = "(string \<times> propval) list"

record deal =
  deal_id :: string
  properties :: props
  contactIds :: "string list"

text \<open>A record handed to the deal finder is a license or a transaction.\<close>

datatype record_ref = L license | T transaction

datatype error = AssertionError | DataError

section \<open>Collaborators that are not part of the sources\<close>

text \<open>
  \<^verbatim>\<open>DealFinder\<close> (\<^verbatim>\<open>deal-generator/deal-finder.ts\<close>) is imported but absent: its two
  methods are parameters. \<^verbatim>\<open>getDeal\<close> may fail with an assertion when the records resolve
  to more than one deal.
\<close>

record dealFinder =
  getDeal :: "record_ref list \<Rightarrow> error + deal option"
  getDeals :: "record_ref list \<Rightarrow> deal list"

text \<open>
  The other absent parts: the \<^verbatim>\<open>DealFinder\<close> constructor, the tier calculator (which may
  fail on a malformed tier), the configuration constants, the mustache rendering of the deal
  name, the built-ins \<^verbatim>\<open>Number.prototype.toFixed\<close> and \<^verbatim>\<open>toString\<close>,
  \<^verbatim>\<open>new Date(s).getTime()\<close> (\<open>None\<close> is NaN) and \<^verbatim>\<open>Date.now()\<close>.
\<close>

record env =
  newDealFinder :: "deal list \<Rightarrow> dealFinder"
  calculateTierFromLicenseContext :: "license \<Rightarrow> transaction list \<Rightarrow> error + rat list"
  dealOrigin :: string
  dealRelatedProducts :: string
  renderDealName :: "license \<Rightarrow> string"
  pipelineAtlassianMarketplace :: string
  toFixed :: "nat \<Rightarrow> rat \<Rightarrow> string"
  numToString :: "rat \<Rightarrow> string"
  dateGetTime :: "string \<Rightarrow> int option"
  dateNow :: int

section \<open>Helpers of the JavaScript library and of \<^verbatim>\<open>util/helpers\<close>\<close>

text \<open>\<^verbatim>\<open>_.uniq\<close>: keeps the first occurrence of every element, in order.\<close>

definition uniq :: "'a list \<Rightarrow> 'a list" where
  "uniq xs = fold (\<lambda>x acc. if x \<in> set acc then acc else acc @ [x]) xs []"

text \<open>\<^verbatim>\<open>Array.prototype.join\<close>.\<close>

fun join :: "string \<Rightarrow> string list \<Rightarrow> string" where
  "join sep [] = []"
| "join sep [x] = x"
| "join sep (x # y # ys) = x @ sep @ join sep (y # ys)"

text \<open>\<^verbatim>\<open>String.prototype.split\<close> on a one-character separator.\<close>

fun split :: "char \<Rightarrow> string \<Rightarrow> string list" where
  "split c [] = [[]]"
| "split c (x # xs) =
     (if x = c then [] # split c xs
      else (case split c xs of [] \<Rightarrow> [[x]] | w # ws \<Rightarrow> (x # w) # ws))"

text \<open>\<^verbatim>\<open>String.prototype.toLowerCase\<close>, on ASCII letters.\<close>

definition toLowerCase :: "string \<Rightarrow> string" where
  "toLowerCase s =
     map (\<lambda>c. if CHR ''A'' \<le> c \<and> c \<le> CHR ''Z'' then char_of (of_char c + (32::nat)) else c) s"

text \<open>\<^verbatim>\<open>xs[i]\<close>: \<open>None\<close> is \<^verbatim>\<open>undefined\<close>.\<close>

definition nth_opt :: "'a list \<Rightarrow> nat \<Rightarrow> 'a option" where
  "nth_opt xs i = (if i < length xs then Some (xs ! i) else None)"

text \<open>
  Modelled from the spec: \<^verbatim>\<open>sorter(fn, dir)\<close> of \<^verbatim>\<open>util/helpers\<close> is missing; it is the
  comparator on the key \<^verbatim>\<open>fn\<close>, ascending by default, and \<^verbatim>\<open>Array.prototype.sort\<close> is
  stable. \<open>sort_key\<close> is the stable ascending sort; the descending one keeps the order of
  equal keys too.
\<close>

definition sortASC :: "('a \<Rightarrow> 'k::linorder) \<Rightarrow> 'a list \<Rightarrow> 'a list" where
  "sortASC f xs = sort_key f xs"

definition sortDSC :: "('a \<Rightarrow> 'k::linorder) \<Rightarrow> 'a list \<Rightarrow> 'a list" where
  "sortDSC f xs = rev (sort_key f (rev xs))"

text \<open>\<^verbatim>\<open>Object.assign(target, source)\<close> and the object spread: a key already present keeps
  its place and takes the new value, a new key goes to the end.\<close>

fun assign1 :: "string \<Rightarrow> propval \<Rightarrow> props \<Rightarrow> props" where
  "assign1 k v [] = [(k, v)]"
| "assign1 k v (p # ps) = (if fst p = k then (k, v) # ps else p # assign1 k v ps)"

definition assign :: "props \<Rightarrow> props \<Rightarrow> props" where
  "assign target source = fold (\<lambda>(k, v) acc. assign1 k v acc) source target"

text \<open>A loop and a \<^verbatim>\<open>map\<close> whose body may throw: the first error ends them.\<close>

fun foldE :: "('a \<Rightarrow> 's \<Rightarrow> error + 's) \<Rightarrow> 'a list \<Rightarrow> 's \<Rightarrow> error + 's" where
  "foldE f [] s = Inr s"
| "foldE f (x # xs) s = (case f x s of Inl e \<Rightarrow> Inl e | Inr s' \<Rightarrow> foldE f xs s')"

fun mapE :: "('a \<Rightarrow> error + 'b) \<Rightarrow> 'a list \<Rightarrow> error + 'b list" where
  "mapE f [] = Inr []"
| "mapE f (x # xs) =
     (case f x of Inl e \<Rightarrow> Inl e
      | Inr y \<Rightarrow> (case mapE f xs of Inl e \<Rightarrow> Inl e | Inr ys \<Rightarrow> Inr (y # ys)))"

section \<open>The group classifier: \<^verbatim>\<open>DealActionGenerator\<close>\<close>

text \<open>The two action types (lines 404 to 421); an update may carry no license.\<close>

record DealUpdateAction =
  u_id :: string
  u_license :: "license option"
  u_transactions :: "transaction list"
  u_properties :: props

record DealCreateAction =
  c_dealstage :: DealStage
  c_license :: license
  c_transactions :: "transaction list"
  c_amount :: string

text \<open>The mutable fields of the generator (lines 429 to 432); an ignored license carries
  its reason.\<close>

record generator =
  dealCreateActions :: "DealCreateAction list"
  dealUpdateActions :: "DealUpdateAction list"
  ignoredLicenseSets :: "(string \<times> license) list list"

text \<open>\<^verbatim>\<open>isFreeLicense\<close> (lines 642 to 644) and \<^verbatim>\<open>ignoreLicenses\<close> (lines 609 to 611).\<close>

definition isFreeLicense :: "license \<Rightarrow> bool" where
  "isFreeLicense l \<longleftrightarrow> licenseType l = ''EVALUATION'' \<or> licenseType l = ''OPEN_SOURCE''"

definition ignoreLicenses :: "string \<Rightarrow> license list \<Rightarrow> generator \<Rightarrow> generator" where
  "ignoreLicenses reason licenses g =
     g\<lparr>ignoredLicenseSets := ignoredLicenseSets g @ [map (\<lambda>l. (reason, l)) licenses]\<rparr>"

text \<open>\<^verbatim>\<open>ignoring\<close> (lines 596 to 607). The domain of a technical contact is the second
  piece of the lower-cased email split at \<^verbatim>\<open>@\<close>, \<^verbatim>\<open>undefined\<close> (\<open>None\<close>) when there is
  none; a set never has \<^verbatim>\<open>undefined\<close>. The method returns whether the group is ignored and
  records it when it is.\<close>

definition techDomain :: "license \<Rightarrow> string option" where
  "techDomain l =
     nth_opt (split CHR ''@'' (toLowerCase (email (technicalContact (contactDetails l))))) 1"

definition badDomainsOf :: "string set \<Rightarrow> string set \<Rightarrow> license list \<Rightarrow> string option list" where
  "badDomainsOf providerDomains partnerDomains licenses =
     filter (\<lambda>d. case d of None \<Rightarrow> False
                 | Some domain \<Rightarrow> domain \<in> partnerDomains \<or> domain \<in> providerDomains)
       (map techDomain licenses)"

definition ignoring ::
  "string set \<Rightarrow> string set \<Rightarrow> relatedLicenseSet \<Rightarrow> generator \<Rightarrow> bool \<times> generator" where
  "ignoring providerDomains partnerDomains groups g =
     (let licenses = map license groups;
          badDomains = badDomainsOf providerDomains partnerDomains licenses
      in if length badDomains = length licenses
         then (True, ignoreLicenses (''bad-domains:'' @ join '','' (map the (uniq badDomains)))
                       licenses g)
         else (False, g))"

text \<open>\<^verbatim>\<open>xs.sort()[0] || fallback\<close> on strings: the least string, the fallback when there
  is none or it is empty.\<close>

definition firstSortedOr :: "string list \<Rightarrow> string \<Rightarrow> string" where
  "firstSortedOr xs fallback =
     (case sort xs of [] \<Rightarrow> fallback | d # _ \<Rightarrow> if d = [] then fallback else d)"

text \<open>Lines 447 to 453: the set of the deals found for the licenses of the group, in
  insertion order, and its first element.\<close>

definition licenseDealsOf :: "dealFinder \<Rightarrow> relatedLicenseSet \<Rightarrow> error + deal list" where
  "licenseDealsOf finder groups =
     foldE (\<lambda>l acc. case getDeal finder [L l] of
                       Inl e \<Rightarrow> Inl e
                     | Inr None \<Rightarrow> Inr acc
                     | Inr (Some d) \<Rightarrow> Inr (if d \<in> set acc then acc else acc @ [d]))
       (map license groups) []"

definition groupDeal :: "dealFinder \<Rightarrow> relatedLicenseSet \<Rightarrow> error + deal option" where
  "groupDeal finder groups =
     (case licenseDealsOf finder groups of
        Inl e \<Rightarrow> Inl e
      | Inr [] \<Rightarrow> Inr None
      | Inr (d # _) \<Rightarrow> Inr (Some d))"

text \<open>Lines 529 to 539: the transactions of the group that are not refunds, by sale date,
  and the price, the vendor amount of the first of them.\<close>

definition paidTransactions :: "relatedLicenseSet \<Rightarrow> transaction list" where
  "paidTransactions groups =
     sortASC (\<lambda>tx. saleDate (purchaseDetails tx))
       (filter (\<lambda>tx. saleType (purchaseDetails tx) \<noteq> ''Refund'')
          (concat (map transactions groups)))"

definition priceOf :: "relatedLicenseSet \<Rightarrow> rat option" where
  "priceOf groups =
     (case paidTransactions groups of [] \<Rightarrow> None
      | tx # _ \<Rightarrow> Some (vendorAmount (purchaseDetails tx)))"

text \<open>\<^verbatim>\<open>...(price && { amount: price.toFixed(2) })\<close>: nothing when the price is
  \<^verbatim>\<open>undefined\<close> or zero. The update to CLOSED_WON is pushed at lines 544 to 553 and again
  at lines 568 to 577, the create at lines 556 to 561 and 581 to 586.\<close>

definition amountOverride :: "env \<Rightarrow> rat option \<Rightarrow> props" where
  "amountOverride E price =
     (case price of None \<Rightarrow> []
      | Some p \<Rightarrow> if p = 0 then [] else [(''amount'', Str (toFixed E 2 p))])"

definition closedWonUpdate ::
  "env \<Rightarrow> deal \<Rightarrow> license \<Rightarrow> transaction list \<Rightarrow> rat option \<Rightarrow> DealUpdateAction" where
  "closedWonUpdate E d firstFoundPaid txs price =
     \<lparr>u_id = deal_id d, u_license = Some firstFoundPaid, u_transactions = txs,
      u_properties = [(''addonlicenseid'', Str (addonLicenseId firstFoundPaid)),
                      (''dealstage'', Stage CLOSED_WON)] @ amountOverride E price\<rparr>"

definition closedWonCreate ::
  "env \<Rightarrow> license \<Rightarrow> transaction list \<Rightarrow> rat option \<Rightarrow> DealCreateAction" where
  "closedWonCreate E firstFoundPaid txs price =
     \<lparr>c_dealstage = CLOSED_WON, c_license = firstFoundPaid, c_transactions = txs,
      c_amount = toFixed E 2 (case price of None \<Rightarrow> 0 | Some p \<Rightarrow> p)\<rparr>"

definition pushUpdate :: "DealUpdateAction \<Rightarrow> generator \<Rightarrow> generator" where
  "pushUpdate a g = g\<lparr>dealUpdateActions := dealUpdateActions g @ [a]\<rparr>"

definition pushCreate :: "DealCreateAction \<Rightarrow> generator \<Rightarrow> generator" where
  "pushCreate a g = g\<lparr>dealCreateActions := dealCreateActions g @ [a]\<rparr>"

text \<open>The branch "It's only evals" (lines 461 to 522); \<open>licenses\<close> is not empty there.\<close>

definition onlyEvals ::
  "relatedLicenseSet \<Rightarrow> license list \<Rightarrow> deal option \<Rightarrow> generator \<Rightarrow> error + generator" where
  "onlyEvals groups licenses dealOpt g =
     (if length (concat (map transactions groups)) \<noteq> 0 then Inl AssertionError
      else
        let latestLicense = last licenses in
        (case dealOpt of
           Some d \<Rightarrow>
             if status latestLicense = ''active'' then
               (let closeDate =
                      firstSortedOr
                        (map (\<lambda>tx. saleDate (purchaseDetails tx)) (concat (map transactions groups)))
                        (maintenanceStartDate latestLicense)
                in if Some (Str closeDate) \<noteq> map_of (properties d) ''closedate'' \<or>
                      Some (Str (addonLicenseId latestLicense)) \<noteq>
                        map_of (properties d) ''addonlicenseid''
                   then Inr (pushUpdate
                          \<lparr>u_id = deal_id d, u_license = None,
                           u_transactions = concat (map transactions groups),
                           u_properties = [(''addonlicenseid'', Str (addonLicenseId latestLicense)),
                                           (''closedate'', Str closeDate)]\<rparr> g)
                   else Inr (ignoreLicenses ''eval-up-to-date'' licenses g))
             else
               Inr (pushUpdate
                     \<lparr>u_id = deal_id d, u_license = None,
                      u_transactions = concat (map transactions groups),
                      u_properties = [(''addonlicenseid'', Str (addonLicenseId latestLicense)),
                                      (''dealstage'', Stage CLOSED_LOST)]\<rparr> g)
         | None \<Rightarrow>
             if status latestLicense = ''active'' then
               Inr (pushCreate
                     \<lparr>c_dealstage = EVAL, c_license = latestLicense,
                      c_transactions = concat (map transactions groups),
                      c_amount = ''0''\<rparr> g)
             else Inr (ignoreLicenses ''inactive-evals'' licenses g)))"

text \<open>The branch "Some (maybe all) are paid" (lines 523 to 591).\<close>

definition somePaid ::
  "env \<Rightarrow> relatedLicenseSet \<Rightarrow> license list \<Rightarrow> deal option \<Rightarrow> generator \<Rightarrow> generator" where
  "somePaid E groups licenses dealOpt g =
     (let isFirstEval = isFreeLicense (hd licenses);
          firstFoundPaid = find (\<lambda>l. \<not> isFreeLicense l) licenses;
          txs = paidTransactions groups;
          price = priceOf groups
      in case firstFoundPaid of
           None \<Rightarrow> g
         | Some paid \<Rightarrow>
             if isFirstEval then
               (case dealOpt of
                  Some d \<Rightarrow> pushUpdate (closedWonUpdate E d paid txs price) g
                | None \<Rightarrow> pushCreate (closedWonCreate E paid txs price) g)
             else
               (case dealOpt of
                  Some d \<Rightarrow>
                    if map_of (properties d) ''dealstage'' = Some (Stage EVAL)
                    then pushUpdate (closedWonUpdate E d paid txs price) g
                    else g
                | None \<Rightarrow> pushCreate (closedWonCreate E paid txs price) g))"

text \<open>\<^verbatim>\<open>generateActionsForMatchedGroup\<close> (lines 439 to 593). The event generator and the
  action generator are not called: lines 443 to 445 are comments.\<close>

definition generateActionsForMatchedGroup ::
  "env \<Rightarrow> string set \<Rightarrow> string set \<Rightarrow> dealFinder \<Rightarrow> relatedLicenseSet \<Rightarrow> generator
     \<Rightarrow> error + generator" where
  "generateActionsForMatchedGroup E providerDomains partnerDomains finder groups g =
     (if \<not> (length groups > 0) then Inl AssertionError
      else
        (case ignoring providerDomains partnerDomains groups g of
           (True, g') \<Rightarrow> Inr g'
         | (False, _) \<Rightarrow>
             (case groupDeal finder groups of
                Inl e \<Rightarrow> Inl e
              | Inr dealOpt \<Rightarrow>
                  let licenses = sortASC maintenanceStartDate (map license groups)
                  in if list_all isFreeLicense licenses
                     then onlyEvals groups licenses dealOpt g
                     else Inr (somePaid E groups licenses dealOpt g))))"

text \<open>\<^verbatim>\<open>generateDealActions\<close> (lines 615 to 638): one generator over all groups; the
  ignored sets are what \<^verbatim>\<open>saveForInspection\<close> receives.\<close>

definition generateDealActions ::
  "env \<Rightarrow> relatedLicenseSet list \<Rightarrow> deal list \<Rightarrow> string set \<Rightarrow> string set \<Rightarrow> error + generator" where
  "generateDealActions E matches initialDeals providerDomains partnerDomains =
     foldE (generateActionsForMatchedGroup E providerDomains partnerDomains
              (newDealFinder E initialDeals))
       matches
       \<lparr>dealCreateActions = [], dealUpdateActions = [], ignoredLicenseSets = []\<rparr>"

section \<open>The deal property mapper and \<^verbatim>\<open>generateDeals\<close>\<close>

record contact =
  hs_object_id :: string

type_synonym contactsByEmail = "string \<rightharpoonup> contact"

record generateDealsData =
  allMatches :: "relatedLicenseSet list"
  initialDeals :: "deal list"
  contactsByEmail :: contactsByEmail
  providerDomains :: "string set"
  partnerDomains :: "string set"

record DealUpdate =
  du_id :: string
  du_properties :: props

record DealCreate =
  dc_contactIds :: "string list"
  dc_properties :: props

record association =
  contactId :: string
  dealId :: string

text \<open>The four lists \<^verbatim>\<open>generateDeals\<close> returns, and the ignored sets it hands to
  \<^verbatim>\<open>saveForInspection\<close>.\<close>

record generateDealsResult =
  dealsToCreate :: "DealCreate list"
  dealsToUpdate :: "DealUpdate list"
  associationsToCreate :: "association list"
  associationsToRemove :: "association list"
  inspectedIgnored :: "(string \<times> license) list list"

text \<open>\<^verbatim>\<open>Math.max(...xs)\<close>: \<open>None\<close> is \<^verbatim>\<open>-Infinity\<close>, the value on no argument.\<close>

definition mathMax :: "rat list \<Rightarrow> rat option" where
  "mathMax xs = (case xs of [] \<Rightarrow> None | x # rest \<Rightarrow> Some (fold max rest x))"

text \<open>\<^verbatim>\<open>dealPropertiesForLicense\<close> (lines 276 to 304).\<close>

definition firstPaidTransaction :: "transaction list \<Rightarrow> transaction option" where
  "firstPaidTransaction txs =
     find (\<lambda>tx. saleType (purchaseDetails tx) \<noteq> ''Refund'')
       (sortASC (\<lambda>tx. saleDate (purchaseDetails tx)) txs)"

definition dealPropertiesForLicense :: "env \<Rightarrow> license \<Rightarrow> transaction list \<Rightarrow> error + props" where
  "dealPropertiesForLicense E lic txs =
     (case calculateTierFromLicenseContext E lic txs of
        Inl e \<Rightarrow> Inl e
      | Inr tiers \<Rightarrow>
          let tier = mathMax tiers;
              amount = (case firstPaidTransaction txs of
                          None \<Rightarrow> 0
                        | Some tx \<Rightarrow> vendorAmount (purchaseDetails tx))
          in Inr
            [(''addonlicenseid'', Str (addonLicenseId lic)),
             (''transactionid'', Str []),
             (''closedate'',
                Str (firstSortedOr (map (\<lambda>tx. saleDate (purchaseDetails tx)) txs)
                       (maintenanceStartDate lic))),
             (''deployment'', Str (hosting lic)),
             (''aa_app'', Str (addonKey lic)),
             (''license_tier'',
                Str (case tier of None \<Rightarrow> ''-Infinity'' | Some t \<Rightarrow> toFixed E 0 t)),
             (''country'', Str (country (contactDetails lic))),
             (''origin'', Str (dealOrigin E)),
             (''related_products'', Str (dealRelatedProducts E)),
             (''dealname'', Str (renderDealName E lic)),
             (''pipeline'', Str (pipelineAtlassianMarketplace E)),
             (''amount'', Str (numToString E amount))])"

text \<open>\<^verbatim>\<open>contactIdsForLicense\<close> (lines 306 to 320). A lookup with an email that is
  \<^verbatim>\<open>undefined\<close> or empty gives \<^verbatim>\<open>undefined\<close>.\<close>

definition lookupOptional :: "contactsByEmail \<Rightarrow> string option \<Rightarrow> contact option" where
  "lookupOptional contacts e =
     (case e of None \<Rightarrow> None | Some a \<Rightarrow> if a = [] then None else contacts a)"

definition contactIdsForLicense :: "contactsByEmail \<Rightarrow> license \<Rightarrow> string list" where
  "contactIdsForLicense contacts lic =
     (let techEmail = email (technicalContact (contactDetails lic));
          billingEmail = map_option email (billingContact (contactDetails lic));
          partnerEmail = (case partnerDetails lic of
                            None \<Rightarrow> None
                          | Some pd \<Rightarrow> map_option email (partnerBillingContact pd));
          techContact = contacts techEmail;
          billingContact = lookupOptional contacts billingEmail;
          partnerContact = lookupOptional contacts partnerEmail
      in uniq (List.map_filter (map_option hs_object_id)
                 [techContact, billingContact, partnerContact]))"

text \<open>\<^verbatim>\<open>olderThan90Days\<close> (lines 640 and 646 to 650) and the filter of lines 330 to
  333: a group stays when one of its licenses is not older than 90 days.\<close>

definition NINETY_DAYS_AS_MS :: int where
  "NINETY_DAYS_AS_MS = 1000 * 60 * 60 * 24 * 90"

definition olderThan90Days :: "env \<Rightarrow> string \<Rightarrow> bool" where
  "olderThan90Days E dateString =
     (case dateGetTime E dateString of
        None \<Rightarrow> False
      | Some t \<Rightarrow> dateNow E - t > NINETY_DAYS_AS_MS)"

definition recentGroups :: "env \<Rightarrow> relatedLicenseSet list \<Rightarrow> relatedLicenseSet list" where
  "recentGroups E matches =
     filter (\<lambda>group. list_ex (\<lambda>m. \<not> olderThan90Days E (maintenanceStartDate (license m))) group)
       matches"

text \<open>The deal of a create action (lines 339 to 348).\<close>

definition makeDealToCreate :: "env \<Rightarrow> contactsByEmail \<Rightarrow> DealCreateAction \<Rightarrow> error + DealCreate" where
  "makeDealToCreate E contacts a =
     (let cids = contactIdsForLicense contacts (c_license a)
      in case dealPropertiesForLicense E (c_license a) (c_transactions a) of
           Inl e \<Rightarrow> Inl e
         | Inr generatedProperties \<Rightarrow>
             Inr \<lparr>dc_contactIds = cids,
                  dc_properties =
                    assign generatedProperties
                      [(''amount'', Str (c_amount a)), (''dealstage'', Stage (c_dealstage a))]\<rparr>)"

text \<open>Lines 389 to 398: the loop that deletes every property whose value is the one the old
  deal stores, and the push of an update that keeps a property.\<close>

definition stripUnchanged :: "props \<Rightarrow> props \<Rightarrow> props" where
  "stripUnchanged new old = filter (\<lambda>(k, v). map_of old k \<noteq> Some v) new"

definition pushIfChanged :: "string \<Rightarrow> props \<Rightarrow> deal \<Rightarrow> generateDealsResult \<Rightarrow> generateDealsResult" where
  "pushIfChanged i newProperties oldDeal out =
     (let remaining = stripUnchanged newProperties (properties oldDeal)
      in if length remaining > 0
         then out\<lparr>dealsToUpdate :=
                    dealsToUpdate out @ [\<lparr>du_id = i, du_properties = remaining\<rparr>]\<rparr>
         else out)"

text \<open>Lines 364 to 372: the association changes of an update that carries a license.\<close>

definition creatingAssociatedContactIds :: "string list \<Rightarrow> string list \<Rightarrow> string list" where
  "creatingAssociatedContactIds oldIds newIds = filter (\<lambda>i. i \<notin> set oldIds) newIds"

definition removingAssociatedContactIds :: "string list \<Rightarrow> string list \<Rightarrow> string list" where
  "removingAssociatedContactIds oldIds newIds = filter (\<lambda>i. i \<notin> set newIds) oldIds"

definition pushAssociations :: "contactsByEmail \<Rightarrow> license \<Rightarrow> deal \<Rightarrow> generateDealsResult \<Rightarrow> generateDealsResult" where
  "pushAssociations contacts lic oldDeal out =
     (let oldIds = contactIds oldDeal;
          newIds = contactIdsForLicense contacts lic
      in out\<lparr>associationsToCreate :=
                associationsToCreate out @
                  map (\<lambda>c. \<lparr>contactId = c, dealId = deal_id oldDeal\<rparr>)
                    (creatingAssociatedContactIds oldIds newIds),
              associationsToRemove :=
                associationsToRemove out @
                  map (\<lambda>c. \<lparr>contactId = c, dealId = deal_id oldDeal\<rparr>)
                    (removingAssociatedContactIds oldIds newIds)\<rparr>)"

text \<open>The properties of \<^verbatim>\<open>newDeal\<close> before the unchanged ones are deleted (lines 376 to
  387).\<close>

definition mergedProperties :: "env \<Rightarrow> DealUpdateAction \<Rightarrow> error + props" where
  "mergedProperties E a =
     (case u_license a of
        None \<Rightarrow> Inr (u_properties a)
      | Some lic \<Rightarrow>
          (case dealPropertiesForLicense E lic (u_transactions a) of
             Inl e \<Rightarrow> Inl e
           | Inr generatedProperties \<Rightarrow> Inr (assign generatedProperties (u_properties a))))"

text \<open>One turn of the loop over \<^verbatim>\<open>dealUpdateActions\<close> (lines 355 to 399), and
  \<^verbatim>\<open>generateDeals\<close> (lines 322 to 402).\<close>

definition updateStep ::
  "env \<Rightarrow> deal list \<Rightarrow> contactsByEmail \<Rightarrow> DealUpdateAction \<Rightarrow> generateDealsResult
     \<Rightarrow> error + generateDealsResult" where
  "updateStep E deals contacts a out =
     (case find (\<lambda>oldDeal. deal_id oldDeal = u_id a) deals of
        None \<Rightarrow> Inl AssertionError
      | Some oldDeal \<Rightarrow>
          let out1 = (case u_license a of
                        None \<Rightarrow> out
                      | Some lic \<Rightarrow> pushAssociations contacts lic oldDeal out)
          in (case mergedProperties E a of
                Inl e \<Rightarrow> Inl e
              | Inr newProperties \<Rightarrow> Inr (pushIfChanged (u_id a) newProperties oldDeal out1)))"

definition generateDeals :: "env \<Rightarrow> generateDealsData \<Rightarrow> error + generateDealsResult" where
  "generateDeals E data =
     (case generateDealActions E (recentGroups E (allMatches data)) (initialDeals data)
             (providerDomains data) (partnerDomains data) of
        Inl e \<Rightarrow> Inl e
      | Inr g \<Rightarrow>
          (case mapE (makeDealToCreate E (contactsByEmail data)) (dealCreateActions g) of
             Inl e \<Rightarrow> Inl e
           | Inr creates \<Rightarrow>
               foldE (updateStep E (initialDeals data) (contactsByEmail data))
                 (dealUpdateActions g)
                 \<lparr>dealsToCreate = creates, dealsToUpdate = [],
                  associationsToCreate = [], associationsToRemove = [],
                  inspectedIgnored = ignoredLicenseSets g\<rparr>))"

section \<open>The action generator: \<^verbatim>\<open>ActionGenerator\<close>\<close>

text \<open>
  The events (\<^verbatim>\<open>events.ts\<close> holds only their types): every event carries \<^verbatim>\<open>groups\<close>; an
  eval its licenses, a purchase its licenses and maybe a transaction, a renewal and an
  upgrade a transaction, a refund the refunded transactions.
\<close>

datatype DealRelevantEvent =
    EvalEvent "licenseContext list" "license list"
  | PurchaseEvent "licenseContext list" "license list" "transaction option"
  | RenewalEvent "licenseContext list" transaction
  | UpgradeEvent "licenseContext list" transaction
  | RefundEvent "licenseContext list" "transaction list"

fun event_groups :: "DealRelevantEvent \<Rightarrow> licenseContext list" where
  "event_groups (EvalEvent gs _) = gs"
| "event_groups (PurchaseEvent gs _ _) = gs"
| "event_groups (RenewalEvent gs _) = gs"
| "event_groups (UpgradeEvent gs _) = gs"
| "event_groups (RefundEvent gs _) = gs"

datatype Action =
    UpdateAction "licenseContext list" deal props
  | CreateAction "licenseContext list" props

text \<open>
  \<^verbatim>\<open>records.ts\<close> is absent: \<^verbatim>\<open>dealCreationProperties\<close>, \<^verbatim>\<open>dealUpdateProperties\<close> and
  \<^verbatim>\<open>getDate\<close> are parameters. The record given to the first is \<^verbatim>\<open>undefined\<close> (\<open>None\<close>)
  when the event has no license and no transaction.
\<close>

record records =
  dealCreationProperties :: "record_ref option \<Rightarrow> DealStage \<Rightarrow> props"
  dealUpdateProperties :: "deal \<Rightarrow> record_ref \<Rightarrow> props"
  getDate :: "record_ref \<Rightarrow> string"

text \<open>\<^verbatim>\<open>makeCreateAction\<close>, \<^verbatim>\<open>makeUpdateAction\<close> and \<^verbatim>\<open>getLatestRecord\<close> (lines 235 to
  261).\<close>

definition makeCreateAction ::
  "records \<Rightarrow> DealRelevantEvent \<Rightarrow> record_ref option \<Rightarrow> DealStage \<Rightarrow> Action" where
  "makeCreateAction R event record dealstage =
     CreateAction (event_groups event) (dealCreationProperties R record dealstage)"

definition makeUpdateAction ::
  "records \<Rightarrow> DealRelevantEvent \<Rightarrow> deal \<Rightarrow> record_ref option \<Rightarrow> props \<Rightarrow> Action option" where
  "makeUpdateAction R event d record props =
     (let combinedProperties =
            assign (case record of None \<Rightarrow> [] | Some r \<Rightarrow> dealUpdateProperties R d r) props
      in if length combinedProperties = 0 then None
         else Some (UpdateAction (event_groups event) d combinedProperties))"

definition getLatestRecord :: "records \<Rightarrow> license list \<Rightarrow> transaction option \<Rightarrow> record_ref option" where
  "getLatestRecord R licenses tx =
     nth_opt (sortDSC (getDate R)
                (map L licenses @ (case tx of None \<Rightarrow> [] | Some t \<Rightarrow> [T t]))) 0"

text \<open>The rules of the events (lines 157 to 226); \<open>dealstageOf\<close> reads
  \<^verbatim>\<open>deal.properties.dealstage\<close>.\<close>

definition dealstageOf :: "deal \<Rightarrow> propval option" where
  "dealstageOf d = map_of (properties d) ''dealstage''"

definition actionForEval ::
  "records \<Rightarrow> dealFinder \<Rightarrow> DealRelevantEvent \<Rightarrow> license list \<Rightarrow> error + Action option" where
  "actionForEval R finder event licenses =
     (case getDeal finder (map L licenses) of
        Inl e \<Rightarrow> Inl e
      | Inr dealOpt \<Rightarrow>
          let latestLicense = map_option L (nth_opt licenses (length licenses - 1))
          in (case dealOpt of
                None \<Rightarrow> Inr (Some (makeCreateAction R event latestLicense EVAL))
              | Some d \<Rightarrow>
                  if dealstageOf d = Some (Stage EVAL)
                  then Inr (makeUpdateAction R event d latestLicense [])
                  else Inr None))"

text \<open>\<^verbatim>\<open>getDeal(licenses) || getDeal(transaction ? [transaction] : [])\<close>.\<close>

definition purchaseDeal ::
  "dealFinder \<Rightarrow> license list \<Rightarrow> transaction option \<Rightarrow> error + deal option" where
  "purchaseDeal finder licenses tx =
     (case getDeal finder (map L licenses) of
        Inl e \<Rightarrow> Inl e
      | Inr (Some d) \<Rightarrow> Inr (Some d)
      | Inr None \<Rightarrow> getDeal finder (case tx of None \<Rightarrow> [] | Some t \<Rightarrow> [T t]))"

definition actionForPurchase ::
  "records \<Rightarrow> dealFinder \<Rightarrow> DealRelevantEvent \<Rightarrow> license list \<Rightarrow> transaction option
     \<Rightarrow> error + Action option" where
  "actionForPurchase R finder event licenses tx =
     (case purchaseDeal finder licenses tx of
        Inl e \<Rightarrow> Inl e
      | Inr dealOpt \<Rightarrow>
          let record = getLatestRecord R licenses tx
          in (case dealOpt of
                None \<Rightarrow> Inr (Some (makeCreateAction R event record CLOSED_WON))
              | Some d \<Rightarrow>
                  if dealstageOf d = Some (Stage EVAL)
                  then Inr (makeUpdateAction R event d record [(''dealstage'', Stage CLOSED_WON)])
                  else Inr None))"

definition actionForRenewal :: "records \<Rightarrow> DealRelevantEvent \<Rightarrow> transaction \<Rightarrow> Action" where
  "actionForRenewal R event tx = makeCreateAction R event (Some (T tx)) CLOSED_WON"

definition actionForRefund ::
  "records \<Rightarrow> dealFinder \<Rightarrow> DealRelevantEvent \<Rightarrow> transaction list \<Rightarrow> Action list" where
  "actionForRefund R finder event refundedTxs =
     List.map_filter (\<lambda>a. a)
       (map (\<lambda>d. makeUpdateAction R event d None [(''dealstage'', Stage CLOSED_LOST)])
          (filter (\<lambda>d. dealstageOf d \<noteq> Some (Stage CLOSED_LOST))
             (getDeals finder (map T refundedTxs))))"

definition optionToList :: "'a option \<Rightarrow> 'a list" where
  "optionToList x = (case x of None \<Rightarrow> [] | Some a \<Rightarrow> [a])"

fun actionsFor :: "records \<Rightarrow> dealFinder \<Rightarrow> DealRelevantEvent \<Rightarrow> error + Action list" where
  "actionsFor R finder (EvalEvent gs licenses) =
     map_sum (\<lambda>e. e) optionToList (actionForEval R finder (EvalEvent gs licenses) licenses)"
| "actionsFor R finder (PurchaseEvent gs licenses tx) =
     map_sum (\<lambda>e. e) optionToList
       (actionForPurchase R finder (PurchaseEvent gs licenses tx) licenses tx)"
| "actionsFor R finder (RenewalEvent gs tx) = Inr [actionForRenewal R (RenewalEvent gs tx) tx]"
| "actionsFor R finder (UpgradeEvent gs tx) = Inr [actionForRenewal R (UpgradeEvent gs tx) tx]"
| "actionsFor R finder (RefundEvent gs txs) =
     Inr (actionForRefund R finder (RefundEvent gs txs) txs)"

definition generateFrom :: "records \<Rightarrow> dealFinder \<Rightarrow> DealRelevantEvent list \<Rightarrow> error + Action list" where
  "generateFrom R finder events = map_sum (\<lambda>e. e) concat (mapE (actionsFor R finder) events)"

section \<open>A deal finder and an environment to run the engine on examples\<close>

text \<open>
  Modelled from the spec: the indexes of the class \<^verbatim>\<open>DealFinder\<close>, which is not in the
  sources. It keeps one index by the license id a deal carries and one by its transaction
  id; a later deal replaces an earlier one under the same id and an empty id is not indexed,
  as in \<^verbatim>\<open>DealManager.addIndexes\<close> of \<^verbatim>\<open>src/lib/model/deal.ts\<close>. A license resolves by its
  license id, a transaction by its transaction id.
\<close>

definition indexedDeal :: "string \<Rightarrow> deal list \<Rightarrow> string \<Rightarrow> deal option" where
  "indexedDeal key deals i =
     (if i = [] then None
      else find (\<lambda>d. map_of (properties d) key = Some (Str i)) (rev deals))"

fun resolveRecord :: "deal list \<Rightarrow> record_ref \<Rightarrow> deal option" where
  "resolveRecord deals (L l) = indexedDeal ''addonlicenseid'' deals (addonLicenseId l)"
| "resolveRecord deals (T t) = indexedDeal ''transactionid'' deals (transactionId t)"

text \<open>
  Modelled from the spec: the class \<^verbatim>\<open>DealFinder\<close> is not in the sources. It is built once
  from the deal snapshot; \<^verbatim>\<open>getDeals\<close> gives the distinct deals the records resolve to,
  \<^verbatim>\<open>getDeal\<close> the single one, none when no record resolves, and it asserts that there is at
  most one.
\<close>

definition DealFinder :: "deal list \<Rightarrow> dealFinder" where
  "DealFinder deals =
     \<lparr>getDeal = (\<lambda>records.
         case uniq (List.map_filter (resolveRecord deals) records) of
           [] \<Rightarrow> Inr None
         | [d] \<Rightarrow> Inr (Some d)
         | _ \<Rightarrow> Inl AssertionError),
      getDeals = (\<lambda>records. uniq (List.map_filter (resolveRecord deals) records))\<rparr>"

text \<open>The built-ins \<^verbatim>\<open>toFixed\<close> and \<^verbatim>\<open>toString\<close> on the whole numbers the examples use:
  the digits of the number, and for \<^verbatim>\<open>toFixed\<close> a point and as many zeros as digits are
  asked for.\<close>

definition exampleDigits :: "(rat \<times> string) list" where
  "exampleDigits = [(0, ''0''), (10, ''10''), (100, ''100''), (250, ''250'')]"

definition exampleToString :: "rat \<Rightarrow> string" where
  "exampleToString x = (case map_of exampleDigits x of None \<Rightarrow> ''?'' | Some s \<Rightarrow> s)"

definition exampleToFixed :: "nat \<Rightarrow> rat \<Rightarrow> string" where
  "exampleToFixed digits x =
     exampleToString x @ (if digits = 0 then [] else ''.'' @ replicate digits CHR ''0'')"

definition exampleDates :: "(string \<times> int) list" where
  "exampleDates =
     [(''2020-12-01'', 1606780800000), (''2021-01-01'', 1609459200000),
      (''2021-02-01'', 1612137600000), (''2021-03-01'', 1614556800000),
      (''2021-03-15'', 1615766400000), (''2021-04-01'', 1617235200000)]"

definition exampleEnv :: env where
  "exampleEnv =
     \<lparr>newDealFinder = DealFinder,
      calculateTierFromLicenseContext = (\<lambda>lic txs. Inr [10]),
      dealOrigin = ''MPAC Lead'',
      dealRelatedProducts = ''Marketing Automation'',
      renderDealName = (\<lambda>lic. addonKey lic @ '' at '' @ country (contactDetails lic)),
      pipelineAtlassianMarketplace = ''Marketplace'',
      toFixed = exampleToFixed,
      numToString = exampleToString,
      dateGetTime = map_of exampleDates,
      dateNow = 1617235200000\<rparr>"

definition exampleLicense :: "string \<Rightarrow> string \<Rightarrow> string \<Rightarrow> string \<Rightarrow> string \<Rightarrow> license" where
  "exampleLicense i ty st start techEmail =
     \<lparr>addonLicenseId = i, addonKey = ''app'', licenseType = ty, status = st,
      maintenanceStartDate = start, hosting = ''Cloud'',
      contactDetails = \<lparr>technicalContact = \<lparr>email = techEmail\<rparr>, billingContact = None,
                         country = ''NZ''\<rparr>,
      partnerDetails = None\<rparr>"

definition exampleTransaction :: "string \<Rightarrow> string \<Rightarrow> string \<Rightarrow> string \<Rightarrow> rat \<Rightarrow> transaction" where
  "exampleTransaction i lid date ty amt =
     \<lparr>transactionId = i, txAddonLicenseId = lid,
      purchaseDetails = \<lparr>saleDate = date, saleType = ty, vendorAmount = amt\<rparr>\<rparr>"

definition exampleRecords :: records where
  "exampleRecords =
     \<lparr>dealCreationProperties = (\<lambda>r stage. [(''dealstage'', Stage stage)]),
      dealUpdateProperties = (\<lambda>d r. []),
      getDate = (\<lambda>r. case r of L l \<Rightarrow> maintenanceStartDate l
                        | T t \<Rightarrow> saleDate (purchaseDetails t))\<rparr>"

definition emptyGenerator :: generator where
  "emptyGenerator = \<lparr>dealCreateActions = [], dealUpdateActions = [], ignoredLicenseSets = []\<rparr>"

definition emptyResult :: generateDealsResult where
  "emptyResult =
     \<lparr>dealsToCreate = [], dealsToUpdate = [], associationsToCreate = [],
      associationsToRemove = [], inspectedIgnored = []\<rparr>"

definition evalLicense :: license where
  "evalLicense = exampleLicense ''L1'' ''EVALUATION'' ''active'' ''2021-03-01'' ''bob@corp.example''"

definition oldEvalLicense :: license where
  "oldEvalLicense = exampleLicense ''L0'' ''EVALUATION'' ''active'' ''2020-12-01'' ''bob@corp.example''"

definition paidLicense :: license where
  "paidLicense = exampleLicense ''L2'' ''COMMERCIAL'' ''active'' ''2021-03-15'' ''bob@corp.example''"

definition partnerLicense :: license where
  "partnerLicense = exampleLicense ''L3'' ''COMMERCIAL'' ''active'' ''2021-03-01'' ''Ann@Partner.example''"

definition purchaseTx :: transaction where
  "purchaseTx = exampleTransaction ''T1'' ''L2'' ''2021-03-15'' ''New'' 100"

definition laterPurchaseTx :: transaction where
  "laterPurchaseTx = exampleTransaction ''T3'' ''L2'' ''2021-03-20'' ''Renewal'' 250"

definition refundTx :: transaction where
  "refundTx = exampleTransaction ''T2'' ''L2'' ''2021-03-18'' ''Refund'' (- 100)"

definition earlyRefundTx :: transaction where
  "earlyRefundTx = exampleTransaction ''T0'' ''L2'' ''2021-03-10'' ''Refund'' (- 40)"

text \<open>Scenario A: one active evaluation, no transaction.\<close>

definition groupEval :: relatedLicenseSet where
  "groupEval = [\<lparr>license = evalLicense, transactions = []\<rparr>]"

text \<open>An evaluation that carries a transaction.\<close>

definition groupEvalWithTx :: relatedLicenseSet where
  "groupEvalWithTx = [\<lparr>license = evalLicense, transactions = [purchaseTx]\<rparr>]"

text \<open>An evaluation whose maintenance started more than 90 days before \<open>dateNow\<close>.\<close>

definition groupOld :: relatedLicenseSet where
  "groupOld = [\<lparr>license = oldEvalLicense, transactions = []\<rparr>]"

text \<open>Scenario B: an evaluation followed by a purchase; the paid license carries a
  renewal, a refund dated before every sale, and the purchase.\<close>

definition groupConversion :: relatedLicenseSet where
  "groupConversion =
     [\<lparr>license = evalLicense, transactions = []\<rparr>,
      \<lparr>license = paidLicense, transactions = [laterPurchaseTx, earlyRefundTx, purchaseTx]\<rparr>]"

text \<open>An evaluation followed by a paid license that has no transaction yet.\<close>

definition groupConversionNoPrice :: relatedLicenseSet where
  "groupConversionNoPrice =
     [\<lparr>license = evalLicense, transactions = []\<rparr>,
      \<lparr>license = paidLicense, transactions = []\<rparr>]"

text \<open>Scenario C: a paid license whose purchase was refunded.\<close>

definition groupRefunded :: relatedLicenseSet where
  "groupRefunded = [\<lparr>license = paidLicense, transactions = [purchaseTx, refundTx]\<rparr>]"

text \<open>Scenario D: a license whose technical contact is at a partner domain.\<close>

definition groupPartner :: relatedLicenseSet where
  "groupPartner = [\<lparr>license = partnerLicense, transactions = [purchaseTx]\<rparr>]"

definition exampleDeal :: "string \<Rightarrow> string \<Rightarrow> string \<Rightarrow> DealStage \<Rightarrow> string list \<Rightarrow> deal" where
  "exampleDeal i lid tid stage cids =
     \<lparr>deal_id = i,
      properties = [(''addonlicenseid'', Str lid), (''transactionid'', Str tid),
                    (''closedate'', Str ''2021-03-01''), (''dealstage'', Stage stage),
                    (''amount'', Str ''100.00'')],
      contactIds = cids\<rparr>"

definition dealEval :: deal where
  "dealEval = exampleDeal ''5'' ''L1'' [] EVAL [''c9'', ''c9'']"

definition dealWon :: deal where
  "dealWon = exampleDeal ''7'' ''L2'' ''T1'' CLOSED_WON []"

definition dealLost :: deal where
  "dealLost = exampleDeal ''8'' ''L1'' [] CLOSED_LOST []"

definition dealPartner :: deal where
  "dealPartner = exampleDeal ''9'' ''L3'' [] EVAL []"

definition exampleContacts :: contactsByEmail where
  "exampleContacts = map_of [(''bob@corp.example'', \<lparr>hs_object_id = ''c1''\<rparr>)]"

definition exampleData :: "relatedLicenseSet list \<Rightarrow> deal list \<Rightarrow> generateDealsData" where
  "exampleData matches deals =
     \<lparr>allMatches = matches, initialDeals = deals, contactsByEmail = exampleContacts,
      providerDomains = {''gmail.com''}, partnerDomains = {''partner.example''}\<rparr>"

text \<open>The update the classifier asks for when an inactive evaluation meets its deal, here
  a deal that is closed already.\<close>

definition closeLostAction :: DealUpdateAction where
  "closeLostAction =
     \<lparr>u_id = ''8'', u_license = None, u_transactions = [],
      u_properties = [(''addonlicenseid'', Str ''L1''), (''dealstage'', Stage CLOSED_LOST)]\<rparr>"

section \<open>Notions the properties are stated with\<close>

text \<open>The four action lists of a result, without the audit list.\<close>

definition actionLists ::
  "generateDealsResult \<Rightarrow>
     DealCreate list \<times> DealUpdate list \<times> association list \<times> association list" where
  "actionLists res =
     (dealsToCreate res, dealsToUpdate res, associationsToCreate res, associationsToRemove res)"

text \<open>Two generators with the same create and update actions.\<close>

definition sameActions :: "generator \<Rightarrow> generator \<Rightarrow> bool" where
  "sameActions g1 g2 \<longleftrightarrow>
     dealCreateActions g1 = dealCreateActions g2 \<and> dealUpdateActions g1 = dealUpdateActions g2"

text \<open>The deal an action of the action generator updates.\<close>

fun actionDeal :: "Action \<Rightarrow> deal option" where
  "actionDeal (UpdateAction _ d _) = Some d"
| "actionDeal (CreateAction _ _) = None"

text \<open>A member of a group without its refund transactions.\<close>

definition withoutRefunds :: "licenseContext \<Rightarrow> licenseContext" where
  "withoutRefunds m =
     m\<lparr>transactions :=
         filter (\<lambda>tx. saleType (purchaseDetails tx) \<noteq> ''Refund'') (transactions m)\<rparr>"

text \<open>
  Modelled from the spec: applying the actions to the CRM is the work of the uploader, which
  is not in the sources. An updated deal takes the properties of its update request.
\<close>

definition applyUpdates :: "DealUpdate list \<Rightarrow> deal \<Rightarrow> deal" where
  "applyUpdates us d =
     fold (\<lambda>u d'. if du_id u = deal_id d'
                   then d'\<lparr>properties := assign (properties d') (du_properties u)\<rparr>
                   else d') us d"

text \<open>
  Modelled from the spec: the snapshot after a run, the uploader not being in the sources.
  The deals of the snapshot are updated, and every created deal enters it under a fresh id
  with the properties and the contacts of its create request.
\<close>

definition applyResult :: "string list \<Rightarrow> generateDealsResult \<Rightarrow> deal list \<Rightarrow> deal list" where
  "applyResult freshIds res deals =
     map (applyUpdates (dealsToUpdate res)) deals @
     map (\<lambda>(i, c). \<lparr>deal_id = i, properties = dc_properties c, contactIds = dc_contactIds c\<rparr>)
       (zip freshIds (dealsToCreate res))"

section \<open>What the engine computes on the examples\<close>

text \<open>Scenario B against the deal \<open>dealEval\<close>: the update the classifier asks for, the
  properties the mapper recomputes, the merged properties, and those the deal does not
  store yet.\<close>

definition conversionUpdate :: DealUpdateAction where
  "conversionUpdate =
     closedWonUpdate exampleEnv dealEval paidLicense [purchaseTx, laterPurchaseTx] (Some 100)"

definition conversionGenerated :: props where
  "conversionGenerated =
     [(''addonlicenseid'', Str ''L2''), (''transactionid'', Str []),
      (''closedate'', Str ''2021-03-15''), (''deployment'', Str ''Cloud''),
      (''aa_app'', Str ''app''), (''license_tier'', Str ''10''), (''country'', Str ''NZ''),
      (''origin'', Str ''MPAC Lead''), (''related_products'', Str ''Marketing Automation''),
      (''dealname'', Str ''app at NZ''), (''pipeline'', Str ''Marketplace''),
      (''amount'', Str ''100'')]"

definition conversionMerged :: props where
  "conversionMerged =
     [(''addonlicenseid'', Str ''L2''), (''transactionid'', Str []),
      (''closedate'', Str ''2021-03-15''), (''deployment'', Str ''Cloud''),
      (''aa_app'', Str ''app''), (''license_tier'', Str ''10''), (''country'', Str ''NZ''),
      (''origin'', Str ''MPAC Lead''), (''related_products'', Str ''Marketing Automation''),
      (''dealname'', Str ''app at NZ''), (''pipeline'', Str ''Marketplace''),
      (''amount'', Str ''100.00''), (''dealstage'', Stage CLOSED_WON)]"

definition conversionChanged :: props where
  "conversionChanged =
     [(''addonlicenseid'', Str ''L2''), (''closedate'', Str ''2021-03-15''),
      (''deployment'', Str ''Cloud''), (''aa_app'', Str ''app''), (''license_tier'', Str ''10''),
      (''country'', Str ''NZ''), (''origin'', Str ''MPAC Lead''),
      (''related_products'', Str ''Marketing Automation''), (''dealname'', Str ''app at NZ''),
      (''pipeline'', Str ''Marketplace''), (''dealstage'', Stage CLOSED_WON)]"

definition conversionResult :: generateDealsResult where
  "conversionResult =
     \<lparr>dealsToCreate = [],
      dealsToUpdate = [\<lparr>du_id = ''5'', du_properties = conversionChanged\<rparr>],
      associationsToCreate = [\<lparr>contactId = ''c1'', dealId = ''5''\<rparr>],
      associationsToRemove = [\<lparr>contactId = ''c9'', dealId = ''5''\<rparr>,
                              \<lparr>contactId = ''c9'', dealId = ''5''\<rparr>],
      inspectedIgnored = []\<rparr>"

text \<open>The conversion without a price, first with no deal, then against the deal the first
  run creates.\<close>

definition createdProperties :: props where
  "createdProperties =
     [(''addonlicenseid'', Str ''L2''), (''transactionid'', Str []),
      (''closedate'', Str ''2021-03-15''), (''deployment'', Str ''Cloud''),
      (''aa_app'', Str ''app''), (''license_tier'', Str ''10''), (''country'', Str ''NZ''),
      (''origin'', Str ''MPAC Lead''), (''related_products'', Str ''Marketing Automation''),
      (''dealname'', Str ''app at NZ''), (''pipeline'', Str ''Marketplace''),
      (''amount'', Str ''0.00''), (''dealstage'', Stage CLOSED_WON)]"

definition firstRun :: generateDealsResult where
  "firstRun =
     \<lparr>dealsToCreate = [\<lparr>dc_contactIds = [''c1''], dc_properties = createdProperties\<rparr>],
      dealsToUpdate = [], associationsToCreate = [], associationsToRemove = [],
      inspectedIgnored = []\<rparr>"

definition createdDeal :: deal where
  "createdDeal = \<lparr>deal_id = ''1'', properties = createdProperties, contactIds = [''c1'']\<rparr>"

definition secondUpdate :: DealUpdateAction where
  "secondUpdate = closedWonUpdate exampleEnv createdDeal paidLicense [] None"

definition secondGenerated :: props where
  "secondGenerated =
     [(''addonlicenseid'', Str ''L2''), (''transactionid'', Str []),
      (''closedate'', Str ''2021-03-15''), (''deployment'', Str ''Cloud''),
      (''aa_app'', Str ''app''), (''license_tier'', Str ''10''), (''country'', Str ''NZ''),
      (''origin'', Str ''MPAC Lead''), (''related_products'', Str ''Marketing Automation''),
      (''dealname'', Str ''app at NZ''), (''pipeline'', Str ''Marketplace''),
      (''amount'', Str ''0'')]"

definition secondMerged :: props where
  "secondMerged =
     [(''addonlicenseid'', Str ''L2''), (''transactionid'', Str []),
      (''closedate'', Str ''2021-03-15''), (''deployment'', Str ''Cloud''),
      (''aa_app'', Str ''app''), (''license_tier'', Str ''10''), (''country'', Str ''NZ''),
      (''origin'', Str ''MPAC Lead''), (''related_products'', Str ''Marketing Automation''),
      (''dealname'', Str ''app at NZ''), (''pipeline'', Str ''Marketplace''),
      (''amount'', Str ''0''), (''dealstage'', Stage CLOSED_WON)]"

definition secondRun :: generateDealsResult where
  "secondRun =
     \<lparr>dealsToCreate = [],
      dealsToUpdate = [\<lparr>du_id = ''1'', du_properties = [(''amount'', Str ''0'')]\<rparr>],
      associationsToCreate = [], associationsToRemove = [], inspectedIgnored = []\<rparr>"

section \<open>Lemmas on the helpers\<close>

lemma foldE_append:
  "foldE f (xs @ ys) s = (case foldE f xs s of Inl e \<Rightarrow> Inl e | Inr s' \<Rightarrow> foldE f ys s')"
  by (induction xs arbitrary: s) (auto split: sum.splits)

lemma foldE_invariant:
  assumes "foldE f xs s = Inr s'" and "P s"
    and "\<And>x t t'. x \<in> set xs \<Longrightarrow> P t \<Longrightarrow> f x t = Inr t' \<Longrightarrow> P t'"
  shows "P s'"
  using assms
proof (induction xs arbitrary: s)
  case Nil
  then show ?case by simp
next
  case (Cons x xs)
  from Cons.prems(1) obtain t where t: "f x s = Inr t" "foldE f xs t = Inr s'"
    by (auto split: sum.splits)
  have "P t" using Cons.prems(2) t(1) Cons.prems(3)[of x s t] by simp
  show ?case
  proof (rule Cons.IH[OF t(2) \<open>P t\<close>])
    fix y u u' assume "y \<in> set xs" "P u" "f y u = Inr u'"
    then show "P u'" using Cons.prems(3)[of y u u'] by simp
  qed
qed

lemma mapE_concat_mem:
  assumes "mapE f xs = Inr ys" and "y \<in> set (concat ys)"
  shows "\<exists>x \<in> set xs. \<exists>zs. f x = Inr zs \<and> y \<in> set zs"
  using assms
proof (induction xs arbitrary: ys)
  case Nil
  then show ?case by simp
next
  case (Cons x xs)
  from Cons.prems(1) obtain z zs where z: "f x = Inr z" "mapE f xs = Inr zs" "ys = z # zs"
    by (auto split: sum.splits)
  with Cons.prems(2) have "y \<in> set z \<or> y \<in> set (concat zs)" by simp
  then show ?case using z Cons.IH[OF z(2)] by auto
qed

lemma find_SomeD: "find P xs = Some x \<Longrightarrow> x \<in> set xs \<and> P x"
  by (induction xs) (auto split: if_splits)

lemma uniq_fold_aux:
  "distinct acc \<Longrightarrow>
   distinct (fold (\<lambda>x acc. if x \<in> set acc then acc else acc @ [x]) xs acc) \<and>
   set (fold (\<lambda>x acc. if x \<in> set acc then acc else acc @ [x]) xs acc) = set acc \<union> set xs"
  by (induction xs arbitrary: acc) auto

lemma distinct_uniq: "distinct (uniq xs)"
  using uniq_fold_aux[of "[]" xs] by (simp add: uniq_def)

lemma set_uniq: "set (uniq xs) = set xs"
  using uniq_fold_aux[of "[]" xs] by (simp add: uniq_def)

lemma count_list_filter:
  "count_list (filter P xs) c = (if P c then count_list xs c else 0)"
  by (induction xs) auto

lemma count_list_distinct:
  "distinct xs \<Longrightarrow> count_list xs c = (if c \<in> set xs then 1 else 0)"
  by (induction xs) auto

lemma map_of_assign1:
  "map_of (assign1 k v ps) k' = (if k' = k then Some v else map_of ps k')"
  by (induction ps) auto

lemma map_of_assign:
  "map_of (assign t s) = map_of t ++ map_of (rev s)"
  unfolding assign_def
proof (induction s arbitrary: t)
  case Nil
  then show ?case by simp
next
  case (Cons p s)
  obtain k v where p: "p = (k, v)" by (cases p)
  have "map_of (assign1 k v t) = (map_of t)(k \<mapsto> v)"
    by (rule ext) (simp add: map_of_assign1)
  then show ?case using Cons.IH[of "assign1 k v t"]
    by (simp add: p fun_eq_iff map_add_def split: option.splits)
qed

lemma set_assign1: "set (assign1 k v ps) \<subseteq> insert (k, v) (set ps)"
  by (induction ps) auto

lemma set_assign: "set (assign t s) \<subseteq> set t \<union> set s"
  unfolding assign_def
proof (induction s arbitrary: t)
  case Nil
  then show ?case by simp
next
  case (Cons p s)
  obtain k v where p: "p = (k, v)" by (cases p)
  show ?case using Cons.IH[of "assign1 k v t"] set_assign1[of k v t] by (auto simp: p)
qed

lemma assign_Nil_single: "assign [] [(k, v)] = [(k, v)]"
  by (simp add: assign_def)

lemma list_all_sortASC: "list_all P (sortASC f xs) = list_all P xs"
  by (simp add: sortASC_def list_all_iff)

lemma sortASC_hd_least:
  assumes "sortASC f xs = y # ys"
  shows "y \<in> set xs \<and> (\<forall>x \<in> set xs. f y \<le> f x)"
proof -
  have s: "sorted (map f (y # ys))"
    using assms sorted_sort_key[of f xs] by (simp add: sortASC_def)
  have e: "set (y # ys) = set xs"
    using assms set_sort[of f xs] by (simp add: sortASC_def)
  from s have "\<forall>x \<in> set ys. f y \<le> f x" by simp
  with e show ?thesis by auto
qed

lemma sortASC_Nil: "sortASC f xs = [] \<longleftrightarrow> xs = []"
  by (metis sortASC_def length_sort length_0_conv)

section \<open>Lemmas on the classifier\<close>

lemma badDomainsOf_all:
  assumes "\<forall>l \<in> set ls. case techDomain l of None \<Rightarrow> False | Some d \<Rightarrow> d \<in> ptd \<or> d \<in> pd"
  shows "badDomainsOf pd ptd ls = map techDomain ls"
  unfolding badDomainsOf_def using assms by (induction ls) auto

lemma bad_group_step:
  assumes "groups \<noteq> []"
    and "\<forall>m \<in> set groups.
           case techDomain (license m) of None \<Rightarrow> False | Some d \<Rightarrow> d \<in> ptd \<or> d \<in> pd"
  shows "generateActionsForMatchedGroup E pd ptd finder groups g =
           Inr (ignoreLicenses
                  (''bad-domains:'' @
                     join '','' (map the (uniq (map techDomain (map license groups)))))
                  (map license groups) g)"
proof -
  have "badDomainsOf pd ptd (map license groups) = map techDomain (map license groups)"
    using assms(2) by (intro badDomainsOf_all) auto
  then show ?thesis using assms(1)
    by (simp add: generateActionsForMatchedGroup_def ignoring_def)
qed

lemma onlyEvals_sameActions:
  assumes "sameActions g1 g2"
  shows "rel_sum (=) sameActions (onlyEvals groups licenses dealOpt g1)
           (onlyEvals groups licenses dealOpt g2)"
  using assms
  by (auto simp: onlyEvals_def sameActions_def Let_def pushUpdate_def pushCreate_def
      ignoreLicenses_def split: option.splits)

lemma somePaid_sameActions:
  assumes "sameActions g1 g2"
  shows "sameActions (somePaid E groups licenses dealOpt g1)
           (somePaid E groups licenses dealOpt g2)"
  using assms
  by (auto simp: somePaid_def sameActions_def Let_def pushUpdate_def pushCreate_def
      split: option.splits)

lemma step_sameActions:
  assumes "sameActions g1 g2"
  shows "rel_sum (=) sameActions (generateActionsForMatchedGroup E pd ptd finder groups g1)
           (generateActionsForMatchedGroup E pd ptd finder groups g2)"
proof -
  have ig: "fst (ignoring pd ptd groups g1) = fst (ignoring pd ptd groups g2)"
    "sameActions (snd (ignoring pd ptd groups g1)) (snd (ignoring pd ptd groups g2))"
    using assms by (auto simp: ignoring_def Let_def sameActions_def ignoreLicenses_def)
  show ?thesis
    using ig onlyEvals_sameActions[OF assms] somePaid_sameActions[OF assms]
    by (auto simp: generateActionsForMatchedGroup_def Let_def split: prod.splits sum.splits)
qed

lemma foldE_sameActions:
  assumes "sameActions g1 g2"
  shows "rel_sum (=) sameActions
           (foldE (generateActionsForMatchedGroup E pd ptd finder) gs g1)
           (foldE (generateActionsForMatchedGroup E pd ptd finder) gs g2)"
  using assms
proof (induction gs arbitrary: g1 g2)
  case Nil
  then show ?case by simp
next
  case (Cons x xs)
  let ?s = "generateActionsForMatchedGroup E pd ptd finder x"
  have r: "rel_sum (=) sameActions (?s g1) (?s g2)"
    by (rule step_sameActions[OF Cons.prems])
  show ?case
  proof (cases "?s g1")
    case (Inl e)
    with r have "?s g2 = Inl e" by (cases "?s g2") auto
    with Inl show ?thesis by simp
  next
    case (Inr a)
    with r obtain b where "?s g2 = Inr b" "sameActions a b" by (cases "?s g2") auto
    with Inr Cons.IH[of a b] show ?thesis by simp
  qed
qed

lemma actions_without_bad_group:
  assumes "groups \<noteq> []"
    and "\<forall>m \<in> set groups.
           case techDomain (license m) of None \<Rightarrow> False | Some d \<Rightarrow> d \<in> ptd \<or> d \<in> pd"
  shows "rel_sum (=) sameActions
           (foldE (generateActionsForMatchedGroup E pd ptd finder) (gs1 @ groups # gs2) g)
           (foldE (generateActionsForMatchedGroup E pd ptd finder) (gs1 @ gs2) g)"
proof (cases "foldE (generateActionsForMatchedGroup E pd ptd finder) gs1 g")
  case (Inl e)
  then show ?thesis by (simp add: foldE_append)
next
  case (Inr g1)
  have "sameActions (ignoreLicenses r ls g1) g1" for r ls
    by (simp add: sameActions_def ignoreLicenses_def)
  from foldE_sameActions[OF this]
  show ?thesis using Inr by (simp add: foldE_append bad_group_step[OF assms])
qed

lemma paid_branch:
  assumes "generateActionsForMatchedGroup E pd ptd finder groups g = Inr g'"
    and "\<not> fst (ignoring pd ptd groups g)"
    and "\<not> list_all isFreeLicense (map license groups)"
  shows "\<exists>dealOpt.
           g' = somePaid E groups (sortASC maintenanceStartDate (map license groups)) dealOpt g"
proof -
  have nf: "\<not> list_all isFreeLicense (sortASC maintenanceStartDate (map license groups))"
    using assms(3) by (simp add: list_all_sortASC)
  obtain b g1 where ig: "ignoring pd ptd groups g = (b, g1)"
    by (cases "ignoring pd ptd groups g")
  with assms(2) have b: "\<not> b" by simp
  show ?thesis using assms(1) nf ig b
    by (auto simp: generateActionsForMatchedGroup_def Let_def split: if_splits sum.splits)
qed

lemma somePaid_cases:
  "somePaid E groups licenses dealOpt g = g \<or>
   (\<exists>d paid. somePaid E groups licenses dealOpt g =
      pushUpdate (closedWonUpdate E d paid (paidTransactions groups) (priceOf groups)) g) \<or>
   (\<exists>paid. somePaid E groups licenses dealOpt g =
      pushCreate (closedWonCreate E paid (paidTransactions groups) (priceOf groups)) g)"
  by (auto simp: somePaid_def Let_def split: option.splits)

lemma priceOf_None:
  "priceOf groups = None \<longleftrightarrow>
     (\<forall>tx \<in> set (concat (map transactions groups)). saleType (purchaseDetails tx) = ''Refund'')"
proof -
  have "priceOf groups = None \<longleftrightarrow> paidTransactions groups = []"
    by (simp add: priceOf_def split: list.splits)
  also have "\<dots> \<longleftrightarrow>
     filter (\<lambda>tx. saleType (purchaseDetails tx) \<noteq> ''Refund'')
       (concat (map transactions groups)) = []"
    by (simp add: paidTransactions_def sortASC_Nil)
  finally show ?thesis by (simp add: filter_empty_conv)
qed

lemma priceOf_Some:
  assumes "priceOf groups = Some v"
  shows "\<exists>tx \<in> set (concat (map transactions groups)).
           saleType (purchaseDetails tx) \<noteq> ''Refund'' \<and> vendorAmount (purchaseDetails tx) = v \<and>
           (\<forall>tx' \<in> set (concat (map transactions groups)).
              saleType (purchaseDetails tx') \<noteq> ''Refund'' \<longrightarrow>
              saleDate (purchaseDetails tx) \<le> saleDate (purchaseDetails tx'))"
proof -
  from assms obtain tx rest where p: "paidTransactions groups = tx # rest"
    "v = vendorAmount (purchaseDetails tx)"
    by (auto simp: priceOf_def split: list.splits)
  from sortASC_hd_least[OF p(1)[unfolded paidTransactions_def]] p(2)
  show ?thesis by (intro bexI[of _ tx]) auto
qed

lemma firstPaid_paidTransactions:
  "firstPaidTransaction (paidTransactions groups) =
     (case paidTransactions groups of [] \<Rightarrow> None | tx # _ \<Rightarrow> Some tx)"
proof -
  have srt: "sorted (map (\<lambda>tx. saleDate (purchaseDetails tx)) (paidTransactions groups))"
    by (simp add: paidTransactions_def sortASC_def)
  have nr: "\<forall>tx \<in> set (paidTransactions groups). saleType (purchaseDetails tx) \<noteq> ''Refund''"
    by (simp add: paidTransactions_def sortASC_def)
  have "sortASC (\<lambda>tx. saleDate (purchaseDetails tx)) (paidTransactions groups) =
          paidTransactions groups"
    unfolding sortASC_def[of _ "paidTransactions groups"]
    by (rule sort_key_id_if_sorted[OF srt])
  then show ?thesis using nr
    by (cases "paidTransactions groups") (simp_all add: firstPaidTransaction_def)
qed

lemma generated_amount:
  assumes "dealPropertiesForLicense E lic (paidTransactions groups) = Inr gp"
  shows "map_of gp ''amount'' =
           Some (Str (numToString E (case priceOf groups of None \<Rightarrow> 0 | Some v \<Rightarrow> v)))"
  using assms
  by (auto simp: dealPropertiesForLicense_def firstPaid_paidTransactions priceOf_def Let_def
      split: sum.splits list.splits)

lemma closedWonCreate_amount:
  assumes "makeDealToCreate E contacts
             (closedWonCreate E paid (paidTransactions groups) (priceOf groups)) = Inr d"
  shows "map_of (dc_properties d) ''amount'' =
           Some (Str (toFixed E 2 (case priceOf groups of None \<Rightarrow> 0 | Some v \<Rightarrow> v)))"
  using assms
  by (auto simp: makeDealToCreate_def closedWonCreate_def map_of_assign Let_def
      split: sum.splits)

lemma closedWonUpdate_amount:
  assumes "mergedProperties E
             (closedWonUpdate E d paid (paidTransactions groups) (priceOf groups)) = Inr ps"
  shows "map_of ps ''amount'' =
           Some (Str (let v = (case priceOf groups of None \<Rightarrow> 0 | Some v \<Rightarrow> v)
                      in if v = 0 then numToString E v else toFixed E 2 v))"
proof -
  from assms obtain gp where
    gp: "dealPropertiesForLicense E paid (paidTransactions groups) = Inr gp"
    and ps: "ps = assign gp ([(''addonlicenseid'', Str (addonLicenseId paid)),
                      (''dealstage'', Stage CLOSED_WON)] @ amountOverride E (priceOf groups))"
    by (auto simp: mergedProperties_def closedWonUpdate_def split: sum.splits)
  show ?thesis
    using generated_amount[OF gp]
    by (auto simp: ps map_of_assign amountOverride_def Let_def map_add_def split: option.splits)
qed

lemma paidTransactions_withoutRefunds:
  "paidTransactions (map withoutRefunds groups) = paidTransactions groups"
  by (simp add: paidTransactions_def withoutRefunds_def comp_def filter_concat)

lemma classifier_ignores_refunds:
  assumes "\<not> list_all isFreeLicense (map license groups)"
  shows "generateActionsForMatchedGroup E pd ptd finder (map withoutRefunds groups) g =
         generateActionsForMatchedGroup E pd ptd finder groups g"
proof -
  have l: "map license (map withoutRefunds groups) = map license groups"
    by (simp add: withoutRefunds_def)
  have nf: "\<not> list_all isFreeLicense (sortASC maintenanceStartDate (map license groups))"
    using assms by (simp add: list_all_sortASC)
  have sp: "somePaid E (map withoutRefunds groups) ls dealOpt g = somePaid E groups ls dealOpt g"
    for ls dealOpt
    by (simp add: somePaid_def priceOf_def paidTransactions_withoutRefunds)
  have ig: "ignoring pd ptd (map withoutRefunds groups) g = ignoring pd ptd groups g"
    unfolding ignoring_def l by simp
  have gd: "groupDeal finder (map withoutRefunds groups) = groupDeal finder groups"
    unfolding groupDeal_def licenseDealsOf_def l by simp
  show ?thesis
    unfolding generateActionsForMatchedGroup_def ig gd l
    using nf by (simp add: sp Let_def split: prod.splits sum.splits bool.splits)
qed

lemma step_noEval:
  assumes "generateActionsForMatchedGroup E pd ptd finder groups g = Inr g'"
    and "\<forall>a \<in> set (dealUpdateActions g). (''dealstage'', Stage EVAL) \<notin> set (u_properties a)"
  shows "\<forall>a \<in> set (dealUpdateActions g'). (''dealstage'', Stage EVAL) \<notin> set (u_properties a)"
proof -
  have ov: "(''dealstage'', Stage EVAL) \<notin>
              set ([(''addonlicenseid'', x), (''dealstage'', Stage CLOSED_WON)] @ amountOverride E p)"
    for x p
    by (auto simp: amountOverride_def split: option.splits)
  have sp: "\<forall>a \<in> set (dealUpdateActions (somePaid E groups ls dealOpt g)).
              (''dealstage'', Stage EVAL) \<notin> set (u_properties a)"
    for ls dealOpt
    using assms(2) ov
    by (auto simp: somePaid_def Let_def pushUpdate_def pushCreate_def closedWonUpdate_def
        split: option.splits)
  have oe: "\<forall>a \<in> set (dealUpdateActions h). (''dealstage'', Stage EVAL) \<notin> set (u_properties a)"
    if "onlyEvals groups ls dealOpt g = Inr h" for ls dealOpt h
    using that assms(2)
    by (auto simp: onlyEvals_def Let_def pushUpdate_def pushCreate_def ignoreLicenses_def
        split: option.splits if_splits)
  show ?thesis
    using assms sp oe
    by (auto simp: generateActionsForMatchedGroup_def ignoring_def ignoreLicenses_def Let_def
        split: if_splits sum.splits)
qed

section \<open>Lemmas on \<^verbatim>\<open>generateDeals\<close>\<close>

lemma generateDeals_InrD:
  assumes "generateDeals E data = Inr res"
  obtains g creates where
    "generateDealActions E (recentGroups E (allMatches data)) (initialDeals data)
       (providerDomains data) (partnerDomains data) = Inr g"
    "mapE (makeDealToCreate E (contactsByEmail data)) (dealCreateActions g) = Inr creates"
    "foldE (updateStep E (initialDeals data) (contactsByEmail data)) (dealUpdateActions g)
           \<lparr>dealsToCreate = creates, dealsToUpdate = [],
            associationsToCreate = [], associationsToRemove = [],
            inspectedIgnored = ignoredLicenseSets g\<rparr> = Inr res"
proof -
  obtain g where g: "generateDealActions E (recentGroups E (allMatches data)) (initialDeals data)
       (providerDomains data) (partnerDomains data) = Inr g"
    using assms
    by (cases "generateDealActions E (recentGroups E (allMatches data)) (initialDeals data)
       (providerDomains data) (partnerDomains data)") (simp_all add: generateDeals_def)
  obtain creates where c:
    "mapE (makeDealToCreate E (contactsByEmail data)) (dealCreateActions g) = Inr creates"
    using assms g
    by (cases "mapE (makeDealToCreate E (contactsByEmail data)) (dealCreateActions g)")
       (simp_all add: generateDeals_def)
  show ?thesis using assms g c that by (simp add: generateDeals_def)
qed

lemma recentGroups_append:
  "recentGroups E (xs @ ys) = recentGroups E xs @ recentGroups E ys"
  by (simp add: recentGroups_def)

lemma recentGroups_Cons:
  "recentGroups E (x # xs) = recentGroups E [x] @ recentGroups E xs"
  by (simp add: recentGroups_def)

lemma recentGroups_old:
  assumes "\<forall>m \<in> set g.
             case dateGetTime E (maintenanceStartDate (license m)) of
               None \<Rightarrow> False
             | Some t \<Rightarrow> dateNow E - t > 7776000000"
  shows "recentGroups E [g] = []"
  using assms
  by (auto simp: recentGroups_def list_ex_iff olderThan90Days_def NINETY_DAYS_AS_MS_def
      split: option.splits)

lemma stripUnchanged_all_equal:
  "list_all (\<lambda>(k, v). map_of old k = Some v) ps \<Longrightarrow> stripUnchanged ps old = []"
  by (auto simp: stripUnchanged_def filter_empty_conv list_all_iff)

lemma stripUnchanged_differs:
  "(k, v) \<in> set (stripUnchanged ps old) \<Longrightarrow> map_of old k \<noteq> Some v \<and> (k, v) \<in> set ps"
  by (auto simp: stripUnchanged_def)

lemma pushAssociations_dealsToUpdate:
  "dealsToUpdate (pushAssociations c l d out) = dealsToUpdate out"
  by (simp add: pushAssociations_def Let_def)

lemma pushIfChanged_associations:
  "associationsToCreate (pushIfChanged i ps d out) = associationsToCreate out"
  "associationsToRemove (pushIfChanged i ps d out) = associationsToRemove out"
  by (simp_all add: pushIfChanged_def Let_def)

lemma updateStep_InrD:
  assumes "updateStep E deals contacts a out = Inr out'"
  obtains old ps where
    "find (\<lambda>oldDeal. deal_id oldDeal = u_id a) deals = Some old"
    "mergedProperties E a = Inr ps"
    "out' = pushIfChanged (u_id a) ps old
              (case u_license a of None \<Rightarrow> out
               | Some lic \<Rightarrow> pushAssociations contacts lic old out)"
  using assms by (auto simp: updateStep_def Let_def split: option.splits sum.splits)

lemma updateStep_emits_changes:
  assumes "updateStep E deals contacts a out = Inr out'"
    and "\<forall>u \<in> set (dealsToUpdate out).
           du_properties u \<noteq> [] \<and>
           (\<exists>old \<in> set deals. deal_id old = du_id u \<and>
              (\<forall>(k, v) \<in> set (du_properties u). map_of (properties old) k \<noteq> Some v))"
  shows "\<forall>u \<in> set (dealsToUpdate out').
           du_properties u \<noteq> [] \<and>
           (\<exists>old \<in> set deals. deal_id old = du_id u \<and>
              (\<forall>(k, v) \<in> set (du_properties u). map_of (properties old) k \<noteq> Some v))"
proof (rule updateStep_InrD[OF assms(1)])
  fix old ps
  assume f: "find (\<lambda>oldDeal. deal_id oldDeal = u_id a) deals = Some old"
    and o: "out' = pushIfChanged (u_id a) ps old
              (case u_license a of None \<Rightarrow> out
               | Some lic \<Rightarrow> pushAssociations contacts lic old out)"
  from f have old: "old \<in> set deals" "deal_id old = u_id a"
    using find_SomeD by fastforce+
  have "\<forall>(k, v) \<in> set (stripUnchanged ps (properties old)).
          map_of (properties old) k \<noteq> Some v"
    using stripUnchanged_differs by fastforce
  with old have new:
    "\<exists>d \<in> set deals. deal_id d = u_id a \<and>
       (\<forall>(k, v) \<in> set (stripUnchanged ps (properties old)).
          map_of (properties d) k \<noteq> Some v)"
    by blast
  have "dealsToUpdate out' =
          dealsToUpdate out @
            (if stripUnchanged ps (properties old) = [] then []
             else [\<lparr>du_id = u_id a, du_properties = stripUnchanged ps (properties old)\<rparr>])"
    by (simp add: o pushIfChanged_def pushAssociations_dealsToUpdate Let_def
        split: option.splits)
  then show ?thesis using assms(2) new by auto
qed

lemma merged_noEval:
  assumes "mergedProperties E a = Inr ps"
    and "(''dealstage'', Stage EVAL) \<notin> set (u_properties a)"
  shows "(''dealstage'', Stage EVAL) \<notin> set ps"
proof (cases "u_license a")
  case None
  then show ?thesis using assms by (simp add: mergedProperties_def)
next
  case (Some lic)
  with assms(1) obtain gp where
    gp: "dealPropertiesForLicense E lic (u_transactions a) = Inr gp"
    and ps: "ps = assign gp (u_properties a)"
    by (auto simp: mergedProperties_def split: sum.splits)
  from gp have "(''dealstage'', Stage EVAL) \<notin> set gp"
    by (auto simp: dealPropertiesForLicense_def Let_def split: sum.splits)
  then show ?thesis using assms(2) set_assign[of gp "u_properties a"] by (auto simp: ps)
qed

lemma updateStep_noEval:
  assumes "updateStep E deals contacts a out = Inr out'"
    and "(''dealstage'', Stage EVAL) \<notin> set (u_properties a)"
    and "\<forall>u \<in> set (dealsToUpdate out). (''dealstage'', Stage EVAL) \<notin> set (du_properties u)"
  shows "\<forall>u \<in> set (dealsToUpdate out'). (''dealstage'', Stage EVAL) \<notin> set (du_properties u)"
proof (rule updateStep_InrD[OF assms(1)])
  fix old ps
  assume m: "mergedProperties E a = Inr ps"
    and o: "out' = pushIfChanged (u_id a) ps old
              (case u_license a of None \<Rightarrow> out
               | Some lic \<Rightarrow> pushAssociations contacts lic old out)"
  have "(''dealstage'', Stage EVAL) \<notin> set (stripUnchanged ps (properties old))"
    using merged_noEval[OF m assms(2)] by (auto simp: stripUnchanged_def)
  then show ?thesis using assms(3)
    by (auto simp: o pushIfChanged_def pushAssociations_dealsToUpdate Let_def
        split: option.splits)
qed

lemma foldE_updateStep_noEval:
  assumes "foldE (updateStep E deals contacts) as out = Inr out'"
    and "\<forall>a \<in> set as. (''dealstage'', Stage EVAL) \<notin> set (u_properties a)"
    and "\<forall>u \<in> set (dealsToUpdate out). (''dealstage'', Stage EVAL) \<notin> set (du_properties u)"
  shows "\<forall>u \<in> set (dealsToUpdate out'). (''dealstage'', Stage EVAL) \<notin> set (du_properties u)"
  using assms
proof (induction as arbitrary: out)
  case Nil
  then show ?case by simp
next
  case (Cons a as)
  from Cons.prems(1) obtain t where t: "updateStep E deals contacts a out = Inr t"
    "foldE (updateStep E deals contacts) as t = Inr out'"
    by (auto split: sum.splits)
  have "\<forall>u \<in> set (dealsToUpdate t). (''dealstage'', Stage EVAL) \<notin> set (du_properties u)"
    using updateStep_noEval[OF t(1)] Cons.prems(2,3) by simp
  then show ?case using Cons.IH[OF t(2)] Cons.prems(2) by simp
qed

lemma generateDeals_noEval:
  assumes "generateDeals E data = Inr res"
  shows "\<forall>u \<in> set (dealsToUpdate res). (''dealstage'', Stage EVAL) \<notin> set (du_properties u)"
proof (rule generateDeals_InrD[OF assms])
  fix g :: generator and creates
  assume ga: "generateDealActions E (recentGroups E (allMatches data)) (initialDeals data)
       (providerDomains data) (partnerDomains data) = Inr g"
    and fo: "foldE (updateStep E (initialDeals data) (contactsByEmail data)) (dealUpdateActions g)
           \<lparr>dealsToCreate = creates, dealsToUpdate = [],
            associationsToCreate = [], associationsToRemove = [],
            inspectedIgnored = ignoredLicenseSets g\<rparr> = Inr res"
  have "\<forall>a \<in> set (dealUpdateActions g). (''dealstage'', Stage EVAL) \<notin> set (u_properties a)"
  proof (rule foldE_invariant[OF ga[unfolded generateDealActions_def],
        where P = "\<lambda>h. \<forall>a \<in> set (dealUpdateActions h).
                          (''dealstage'', Stage EVAL) \<notin> set (u_properties a)"])
    show "\<forall>a \<in> set (dealUpdateActions \<lparr>dealCreateActions = [], dealUpdateActions = [],
            ignoredLicenseSets = []\<rparr>). (''dealstage'', Stage EVAL) \<notin> set (u_properties a)"
      by simp
  next
    fix x t t'
    assume "\<forall>a \<in> set (dealUpdateActions t). (''dealstage'', Stage EVAL) \<notin> set (u_properties a)"
      and "generateActionsForMatchedGroup E (providerDomains data) (partnerDomains data)
             (newDealFinder E (initialDeals data)) x t = Inr t'"
    then show "\<forall>a \<in> set (dealUpdateActions t').
                 (''dealstage'', Stage EVAL) \<notin> set (u_properties a)"
      using step_noEval by blast
  qed
  from foldE_updateStep_noEval[OF fo this] show ?thesis by simp
qed

lemma generateDeals_emits_changes:
  assumes "generateDeals E data = Inr res"
  shows "\<forall>u \<in> set (dealsToUpdate res).
           du_properties u \<noteq> [] \<and>
           (\<exists>old \<in> set (initialDeals data). deal_id old = du_id u \<and>
              (\<forall>(k, v) \<in> set (du_properties u). map_of (properties old) k \<noteq> Some v))"
proof (rule generateDeals_InrD[OF assms])
  fix g :: generator and creates
  assume fo: "foldE (updateStep E (initialDeals data) (contactsByEmail data)) (dealUpdateActions g)
           \<lparr>dealsToCreate = creates, dealsToUpdate = [],
            associationsToCreate = [], associationsToRemove = [],
            inspectedIgnored = ignoredLicenseSets g\<rparr> = Inr res"
  show ?thesis
  proof (rule foldE_invariant[OF fo, where P = "\<lambda>out. \<forall>u \<in> set (dealsToUpdate out).
           du_properties u \<noteq> [] \<and>
           (\<exists>old \<in> set (initialDeals data). deal_id old = du_id u \<and>
              (\<forall>(k, v) \<in> set (du_properties u). map_of (properties old) k \<noteq> Some v))"])
    show "\<forall>u \<in> set (dealsToUpdate
              \<lparr>dealsToCreate = creates, dealsToUpdate = [],
               associationsToCreate = [], associationsToRemove = [],
               inspectedIgnored = ignoredLicenseSets g\<rparr>).
           du_properties u \<noteq> [] \<and>
           (\<exists>old \<in> set (initialDeals data). deal_id old = du_id u \<and>
              (\<forall>(k, v) \<in> set (du_properties u). map_of (properties old) k \<noteq> Some v))"
      by simp
  next
    fix x t t'
    assume "\<forall>u \<in> set (dealsToUpdate t).
           du_properties u \<noteq> [] \<and>
           (\<exists>old \<in> set (initialDeals data). deal_id old = du_id u \<and>
              (\<forall>(k, v) \<in> set (du_properties u). map_of (properties old) k \<noteq> Some v))"
      and "updateStep E (initialDeals data) (contactsByEmail data) x t = Inr t'"
    then show "\<forall>u \<in> set (dealsToUpdate t').
           du_properties u \<noteq> [] \<and>
           (\<exists>old \<in> set (initialDeals data). deal_id old = du_id u \<and>
              (\<forall>(k, v) \<in> set (du_properties u). map_of (properties old) k \<noteq> Some v))"
      using updateStep_emits_changes by blast
  qed
qed

lemma updateStep_actionLists:
  assumes "actionLists o1 = actionLists o2"
  shows "map_sum (\<lambda>e. e) actionLists (updateStep E deals contacts a o1) =
         map_sum (\<lambda>e. e) actionLists (updateStep E deals contacts a o2)"
  using assms
  by (auto simp: updateStep_def actionLists_def pushIfChanged_def pushAssociations_def Let_def
      split: option.splits sum.splits)

lemma foldE_updateStep_actionLists:
  assumes "actionLists o1 = actionLists o2"
  shows "map_sum (\<lambda>e. e) actionLists (foldE (updateStep E deals contacts) as o1) =
         map_sum (\<lambda>e. e) actionLists (foldE (updateStep E deals contacts) as o2)"
  using assms
proof (induction as arbitrary: o1 o2)
  case Nil
  then show ?case by simp
next
  case (Cons a as)
  let ?s = "updateStep E deals contacts a"
  have r: "map_sum (\<lambda>e. e) actionLists (?s o1) = map_sum (\<lambda>e. e) actionLists (?s o2)"
    by (rule updateStep_actionLists[OF Cons.prems])
  show ?case
  proof (cases "?s o1")
    case (Inl e)
    with r have "?s o2 = Inl e" by (cases "?s o2") auto
    with Inl show ?thesis by simp
  next
    case (Inr x)
    with r obtain y where "?s o2 = Inr y" "actionLists x = actionLists y"
      by (cases "?s o2") auto
    with Inr Cons.IH[of x y] show ?thesis by simp
  qed
qed

lemma generateDeals_sameActions:
  assumes "rel_sum (=) sameActions
             (generateDealActions E (recentGroups E (allMatches d1)) (initialDeals d1)
                (providerDomains d1) (partnerDomains d1))
             (generateDealActions E (recentGroups E (allMatches d2)) (initialDeals d2)
                (providerDomains d2) (partnerDomains d2))"
    and "initialDeals d1 = initialDeals d2" and "contactsByEmail d1 = contactsByEmail d2"
  shows "map_sum (\<lambda>e. e) actionLists (generateDeals E d1) =
         map_sum (\<lambda>e. e) actionLists (generateDeals E d2)"
proof -
  let ?a1 = "generateDealActions E (recentGroups E (allMatches d1)) (initialDeals d1)
                (providerDomains d1) (partnerDomains d1)"
  let ?a2 = "generateDealActions E (recentGroups E (allMatches d2)) (initialDeals d2)
                (providerDomains d2) (partnerDomains d2)"
  show ?thesis
  proof (cases ?a1)
    case (Inl e)
    with assms(1) have "?a2 = Inl e" by (cases ?a2) auto
    with Inl show ?thesis by (simp add: generateDeals_def)
  next
    case (Inr g1)
    with assms(1) obtain g2 where g2: "?a2 = Inr g2" "sameActions g1 g2" by (cases ?a2) auto
    then have eq: "dealCreateActions g1 = dealCreateActions g2"
      "dealUpdateActions g1 = dealUpdateActions g2"
      by (simp_all add: sameActions_def)
    show ?thesis
    proof (cases "mapE (makeDealToCreate E (contactsByEmail d2)) (dealCreateActions g2)")
      case (Inl e)
      then show ?thesis using Inr g2 eq assms(2,3) by (simp add: generateDeals_def)
    next
      case c: (Inr creates)
      have "actionLists \<lparr>dealsToCreate = creates, dealsToUpdate = [],
                  associationsToCreate = [], associationsToRemove = [],
                  inspectedIgnored = ignoredLicenseSets g1\<rparr> =
            actionLists \<lparr>dealsToCreate = creates, dealsToUpdate = [],
                  associationsToCreate = [], associationsToRemove = [],
                  inspectedIgnored = ignoredLicenseSets g2\<rparr>"
        by (simp add: actionLists_def)
      from foldE_updateStep_actionLists[OF this]
      show ?thesis using Inr g2 eq assms(2,3) c by (simp add: generateDeals_def)
    qed
  qed
qed

lemma deals_without_bad_group:
  assumes "groups \<noteq> []"
    and "\<forall>m \<in> set groups.
           case techDomain (license m) of
             None \<Rightarrow> False
           | Some d \<Rightarrow> d \<in> partnerDomains data \<or> d \<in> providerDomains data"
  shows "map_sum (\<lambda>e. e) actionLists
           (generateDeals E (data\<lparr>allMatches := gs1 @ groups # gs2\<rparr>)) =
         map_sum (\<lambda>e. e) actionLists (generateDeals E (data\<lparr>allMatches := gs1 @ gs2\<rparr>))"
proof (rule generateDeals_sameActions)
  have rg: "recentGroups E [groups] = [groups] \<or> recentGroups E [groups] = []"
    by (simp add: recentGroups_def)
  have refl: "rel_sum (=) sameActions x x" for x :: "error + generator"
    by (cases x) (simp_all add: sameActions_def)
  show "rel_sum (=) sameActions
     (generateDealActions E
        (recentGroups E (allMatches (data\<lparr>allMatches := gs1 @ groups # gs2\<rparr>)))
        (initialDeals (data\<lparr>allMatches := gs1 @ groups # gs2\<rparr>))
        (providerDomains (data\<lparr>allMatches := gs1 @ groups # gs2\<rparr>))
        (partnerDomains (data\<lparr>allMatches := gs1 @ groups # gs2\<rparr>)))
     (generateDealActions E (recentGroups E (allMatches (data\<lparr>allMatches := gs1 @ gs2\<rparr>)))
        (initialDeals (data\<lparr>allMatches := gs1 @ gs2\<rparr>))
        (providerDomains (data\<lparr>allMatches := gs1 @ gs2\<rparr>))
        (partnerDomains (data\<lparr>allMatches := gs1 @ gs2\<rparr>)))"
    using rg
  proof
    assume "recentGroups E [groups] = [groups]"
    then show ?thesis
      using actions_without_bad_group[OF assms, of E _ "recentGroups E gs1" "recentGroups E gs2"]
      by (simp add: generateDealActions_def recentGroups_append recentGroups_Cons[of E groups gs2])
  next
    assume "recentGroups E [groups] = []"
    then show ?thesis
      using refl
      by (simp add: generateDealActions_def recentGroups_append recentGroups_Cons[of E groups gs2])
  qed
qed simp_all

lemma distinct_contactIdsForLicense: "distinct (contactIdsForLicense contacts lic)"
  by (simp add: contactIdsForLicense_def Let_def distinct_uniq)

lemma set_contactIdsForLicense:
  "set (contactIdsForLicense contacts lic) =
     {hs_object_id c | c.
        contacts (email (technicalContact (contactDetails lic))) = Some c \<or>
        lookupOptional contacts (map_option email (billingContact (contactDetails lic))) = Some c \<or>
        lookupOptional contacts
          (case partnerDetails lic of None \<Rightarrow> None
           | Some pd \<Rightarrow> map_option email (partnerBillingContact pd)) = Some c}"
proof -
  have mf: "set (List.map_filter f [x, y, z]) = {v. f x = Some v \<or> f y = Some v \<or> f z = Some v}"
    for f :: "contact option \<Rightarrow> string option" and x y z
    by (auto simp: List.map_filter_def)
  show ?thesis
    unfolding contactIdsForLicense_def Let_def set_uniq mf by auto
qed

lemma count_creating:
  "count_list (creatingAssociatedContactIds oldIds (contactIdsForLicense contacts lic)) c =
     (if c \<in> set (contactIdsForLicense contacts lic) \<and> c \<notin> set oldIds then 1 else 0)"
  by (simp add: creatingAssociatedContactIds_def count_list_filter
      count_list_distinct[OF distinct_contactIdsForLicense])

lemma count_removing:
  "count_list (removingAssociatedContactIds oldIds newIds) c =
     (if c \<in> set newIds then 0 else count_list oldIds c)"
  by (simp add: removingAssociatedContactIds_def count_list_filter)

section \<open>Lemmas on the action generator\<close>

lemma makeUpdateAction_refund:
  "makeUpdateAction R ev d None [(''dealstage'', Stage CLOSED_LOST)] =
     Some (UpdateAction (event_groups ev) d [(''dealstage'', Stage CLOSED_LOST)])"
  by (simp add: makeUpdateAction_def assign_Nil_single)

lemma actionForRefund_eq:
  "actionForRefund R finder ev txs =
     map (\<lambda>d. UpdateAction (event_groups ev) d [(''dealstage'', Stage CLOSED_LOST)])
       (filter (\<lambda>d. dealstageOf d \<noteq> Some (Stage CLOSED_LOST)) (getDeals finder (map T txs)))"
  by (simp add: actionForRefund_def makeUpdateAction_refund List.map_filter_def comp_def)

lemma actionsFor_closed:
  assumes "actionsFor R finder ev = Inr as" and "UpdateAction gs d ps \<in> set as"
    and "dealstageOf d = Some (Stage CLOSED_WON) \<or> dealstageOf d = Some (Stage CLOSED_LOST)"
  shows "ps = [(''dealstage'', Stage CLOSED_LOST)]"
proof (cases ev)
  case (EvalEvent g ls)
  then show ?thesis using assms
    by (auto simp: actionForEval_def makeUpdateAction_def makeCreateAction_def optionToList_def
        Let_def split: sum.splits option.splits if_splits)
next
  case (PurchaseEvent g ls tx)
  then show ?thesis using assms
    by (auto simp: actionForPurchase_def makeUpdateAction_def makeCreateAction_def
        optionToList_def Let_def split: sum.splits option.splits if_splits)
next
  case (RenewalEvent g tx)
  then show ?thesis using assms by (auto simp: actionForRenewal_def makeCreateAction_def)
next
  case (UpgradeEvent g tx)
  then show ?thesis using assms by (auto simp: actionForRenewal_def makeCreateAction_def)
next
  case (RefundEvent g txs)
  then show ?thesis using assms by (auto simp: actionForRefund_eq)
qed

lemma generateFrom_closed:
  assumes "generateFrom R finder events = Inr acts" and "UpdateAction gs d ps \<in> set acts"
    and "dealstageOf d = Some (Stage CLOSED_WON) \<or> dealstageOf d = Some (Stage CLOSED_LOST)"
  shows "ps = [(''dealstage'', Stage CLOSED_LOST)]"
proof -
  from assms(1) obtain ys where
    ys: "mapE (actionsFor R finder) events = Inr ys" "acts = concat ys"
    by (cases "mapE (actionsFor R finder) events") (auto simp: generateFrom_def)
  from mapE_concat_mem[OF ys(1)] assms(2) ys(2)
  obtain ev zs where "actionsFor R finder ev = Inr zs" "UpdateAction gs d ps \<in> set zs"
    by blast
  from actionsFor_closed[OF this assms(3)] show ?thesis .
qed

lemma filter_map_target:
  "filter (\<lambda>a. actionDeal a = Some d) (map (\<lambda>x. UpdateAction gs x ps) ds) =
     replicate (count_list ds d) (UpdateAction gs d ps)"
  by (induction ds) auto

section \<open>The examples, evaluated\<close>

lemma example_free: "isFreeLicense evalLicense" "\<not> isFreeLicense paidLicense"
  by code_simp+

lemma example_ids: "addonLicenseId paidLicense = ''L2''" "deal_id dealEval = ''5''"
  "deal_id createdDeal = ''1''"
  by code_simp+

lemma example_toFixed: "toFixed exampleEnv 2 100 = ''100.00''" "toFixed exampleEnv 2 0 = ''0.00''"
  by code_simp+

lemma example_finder: "newDealFinder exampleEnv = DealFinder"
  by (simp add: exampleEnv_def)

subsection \<open>Scenario B against an evaluation deal\<close>

lemma conversion_not_empty: "groupConversion \<noteq> []"
  by code_simp

lemma conversion_ignoring:
  "ignoring {''gmail.com''} {''partner.example''} groupConversion g = (False, g)"
  by (simp add: ignoring_def Let_def) code_simp

lemma conversion_deal: "groupDeal (DealFinder [dealEval]) groupConversion = Inr (Some dealEval)"
  by code_simp

lemma conversion_licenses:
  "sortASC maintenanceStartDate (map license groupConversion) = [evalLicense, paidLicense]"
  by code_simp

lemma conversion_paid: "paidTransactions groupConversion = [purchaseTx, laterPurchaseTx]"
  by code_simp

lemma conversion_price: "priceOf groupConversion = Some 100"
  by code_simp

lemma conversion_step:
  "generateActionsForMatchedGroup exampleEnv {''gmail.com''} {''partner.example''}
     (DealFinder [dealEval]) groupConversion g = Inr (pushUpdate conversionUpdate g)"
  by (simp add: generateActionsForMatchedGroup_def conversion_not_empty conversion_ignoring
      conversion_deal conversion_licenses example_free conversion_paid conversion_price
      somePaid_def conversionUpdate_def)

lemma conversion_recent: "recentGroups exampleEnv [groupConversion] = [groupConversion]"
  by code_simp

lemma conversion_find: "find (\<lambda>oldDeal. deal_id oldDeal = ''5'') [dealEval] = Some dealEval"
  by code_simp

lemma conversion_fields:
  "u_id conversionUpdate = ''5''" "u_license conversionUpdate = Some paidLicense"
  "u_transactions conversionUpdate = [purchaseTx, laterPurchaseTx]"
  "u_properties conversionUpdate =
     [(''addonlicenseid'', Str ''L2''), (''dealstage'', Stage CLOSED_WON),
      (''amount'', Str ''100.00'')]"
  by (simp_all add: conversionUpdate_def closedWonUpdate_def amountOverride_def example_ids
      example_toFixed)

lemma conversion_generated:
  "dealPropertiesForLicense exampleEnv paidLicense [purchaseTx, laterPurchaseTx] =
     Inr conversionGenerated"
  by code_simp

lemma conversion_assign:
  "assign conversionGenerated
     [(''addonlicenseid'', Str ''L2''), (''dealstage'', Stage CLOSED_WON),
      (''amount'', Str ''100.00'')] = conversionMerged"
  by code_simp

lemma conversion_merged: "mergedProperties exampleEnv conversionUpdate = Inr conversionMerged"
  by (simp add: mergedProperties_def conversion_fields conversion_generated conversion_assign)

lemma conversion_strip: "stripUnchanged conversionMerged (properties dealEval) = conversionChanged"
  by code_simp

lemma conversion_changed: "conversionChanged \<noteq> []"
  by (simp add: conversionChanged_def)

lemma conversion_contacts: "contactIdsForLicense exampleContacts paidLicense = [''c1'']"
  "contactIds dealEval = [''c9'', ''c9'']"
  by code_simp+

lemma conversion_creating: "creatingAssociatedContactIds [''c9'', ''c9''] [''c1''] = [''c1'']"
  by code_simp

lemma conversion_removing:
  "removingAssociatedContactIds [''c9'', ''c9''] [''c1''] = [''c9'', ''c9'']"
  by code_simp

lemma conversion_updateStep:
  "updateStep exampleEnv [dealEval] exampleContacts conversionUpdate emptyResult =
     Inr conversionResult"
  using conversion_changed
  by (simp add: updateStep_def conversion_fields conversion_find conversion_merged
      pushAssociations_def conversion_contacts conversion_creating conversion_removing
      example_ids pushIfChanged_def conversion_strip emptyResult_def conversionResult_def Let_def)

lemma conversion_generateDeals:
  "generateDeals exampleEnv (exampleData [groupConversion] [dealEval]) = Inr conversionResult"
  using conversion_updateStep
  by (simp add: generateDeals_def exampleData_def conversion_recent generateDealActions_def
      conversion_step example_finder pushUpdate_def emptyResult_def)

subsection \<open>A conversion without a price, run twice\<close>

lemma noPrice_not_empty: "groupConversionNoPrice \<noteq> []"
  by code_simp

lemma noPrice_ignoring:
  "ignoring {''gmail.com''} {''partner.example''} groupConversionNoPrice g = (False, g)"
  by (simp add: ignoring_def Let_def) code_simp

lemma noPrice_licenses:
  "sortASC maintenanceStartDate (map license groupConversionNoPrice) = [evalLicense, paidLicense]"
  by code_simp

lemma noPrice_paid: "paidTransactions groupConversionNoPrice = []"
  by code_simp

lemma noPrice_price: "priceOf groupConversionNoPrice = None"
  by code_simp

lemma noPrice_recent:
  "recentGroups exampleEnv [groupConversionNoPrice] = [groupConversionNoPrice]"
  by code_simp

lemma noPrice_no_deal: "groupDeal (DealFinder []) groupConversionNoPrice = Inr None"
  by code_simp

lemma noPrice_first_step:
  "generateActionsForMatchedGroup exampleEnv {''gmail.com''} {''partner.example''}
     (DealFinder []) groupConversionNoPrice g =
   Inr (pushCreate (closedWonCreate exampleEnv paidLicense [] None) g)"
  by (simp add: generateActionsForMatchedGroup_def noPrice_not_empty noPrice_ignoring
      noPrice_no_deal noPrice_licenses example_free noPrice_paid noPrice_price somePaid_def)

lemma noPrice_create:
  "makeDealToCreate exampleEnv exampleContacts (closedWonCreate exampleEnv paidLicense [] None) =
     Inr \<lparr>dc_contactIds = [''c1''], dc_properties = createdProperties\<rparr>"
  by code_simp

lemma noPrice_first_run:
  "generateDeals exampleEnv (exampleData [groupConversionNoPrice] []) = Inr firstRun"
  by (simp add: generateDeals_def exampleData_def noPrice_recent generateDealActions_def
      noPrice_first_step example_finder pushCreate_def noPrice_create firstRun_def)

lemma noPrice_applied: "applyResult [''1''] firstRun [] = [createdDeal]"
  by code_simp

lemma noPrice_deal: "groupDeal (DealFinder [createdDeal]) groupConversionNoPrice = Inr (Some createdDeal)"
  by code_simp

lemma noPrice_second_step:
  "generateActionsForMatchedGroup exampleEnv {''gmail.com''} {''partner.example''}
     (DealFinder [createdDeal]) groupConversionNoPrice g = Inr (pushUpdate secondUpdate g)"
  by (simp add: generateActionsForMatchedGroup_def noPrice_not_empty noPrice_ignoring
      noPrice_deal noPrice_licenses example_free noPrice_paid noPrice_price somePaid_def
      secondUpdate_def)

lemma second_fields:
  "u_id secondUpdate = ''1''" "u_license secondUpdate = Some paidLicense"
  "u_transactions secondUpdate = []"
  "u_properties secondUpdate =
     [(''addonlicenseid'', Str ''L2''), (''dealstage'', Stage CLOSED_WON)]"
  by (simp_all add: secondUpdate_def closedWonUpdate_def amountOverride_def example_ids)

lemma second_generated: "dealPropertiesForLicense exampleEnv paidLicense [] = Inr secondGenerated"
  by code_simp

lemma second_assign:
  "assign secondGenerated [(''addonlicenseid'', Str ''L2''), (''dealstage'', Stage CLOSED_WON)] =
     secondMerged"
  by code_simp

lemma second_merged: "mergedProperties exampleEnv secondUpdate = Inr secondMerged"
  by (simp add: mergedProperties_def second_fields second_generated second_assign)

lemma second_strip: "stripUnchanged secondMerged (properties createdDeal) = [(''amount'', Str ''0'')]"
  by code_simp

lemma second_find: "find (\<lambda>oldDeal. deal_id oldDeal = ''1'') [createdDeal] = Some createdDeal"
  by code_simp

lemma second_contacts: "contactIds createdDeal = [''c1'']"
  "creatingAssociatedContactIds [''c1''] [''c1''] = []"
  "removingAssociatedContactIds [''c1''] [''c1''] = []"
  by code_simp+

lemma second_updateStep:
  "updateStep exampleEnv [createdDeal] exampleContacts secondUpdate emptyResult = Inr secondRun"
  by (simp add: updateStep_def second_fields second_find second_merged pushAssociations_def
      conversion_contacts second_contacts example_ids pushIfChanged_def second_strip
      emptyResult_def secondRun_def Let_def)

lemma noPrice_second_run:
  "generateDeals exampleEnv (exampleData [groupConversionNoPrice] [createdDeal]) = Inr secondRun"
  using second_updateStep
  by (simp add: generateDeals_def exampleData_def noPrice_recent generateDealActions_def
      noPrice_second_step example_finder pushUpdate_def emptyResult_def)

subsection \<open>Scenario C: a refunded purchase against a won deal\<close>

lemma refunded_not_empty: "groupRefunded \<noteq> []"
  by code_simp

lemma refunded_ignoring:
  "ignoring {''gmail.com''} {''partner.example''} groupRefunded g = (False, g)"
  by (simp add: ignoring_def Let_def) code_simp

lemma refunded_licenses:
  "sortASC maintenanceStartDate (map license groupRefunded) = [paidLicense]"
  by code_simp

lemma refunded_deal: "groupDeal (DealFinder [dealWon]) groupRefunded = Inr (Some dealWon)"
  by code_simp

lemma refunded_stage: "map_of (properties dealWon) ''dealstage'' = Some (Stage CLOSED_WON)"
  by code_simp

lemma refunded_step:
  "generateActionsForMatchedGroup exampleEnv {''gmail.com''} {''partner.example''}
     (DealFinder [dealWon]) groupRefunded g = Inr g"
  by (simp add: generateActionsForMatchedGroup_def refunded_not_empty refunded_ignoring
      refunded_deal refunded_licenses example_free somePaid_def refunded_stage)

lemma refunded_rule:
  "actionForRefund exampleRecords (DealFinder [dealWon]) (RefundEvent groupRefunded [purchaseTx])
     [purchaseTx] = [UpdateAction groupRefunded dealWon [(''dealstage'', Stage CLOSED_LOST)]]"
proof -
  have "getDeals (DealFinder [dealWon]) (map T [purchaseTx]) = [dealWon]" by code_simp
  moreover have "dealstageOf dealWon \<noteq> Some (Stage CLOSED_LOST)" by code_simp
  ultimately show ?thesis by (simp add: actionForRefund_eq)
qed

section \<open>The properties\<close>

subsection \<open>The refund rule\<close>

text \<open>
  C1, as amended. The refund rule of the action generator, \<^verbatim>\<open>actionForRefund\<close>: for a refund
  event, a deal that the deal finder gives for the refunded transactions (each deal once)
  yields no action when its stage is CLOSED_LOST already, and in any other stage exactly one
  action, the update that sets its stage to CLOSED_LOST and nothing else; the rule yields no
  other action. The classifier does not apply the rule (the call of the action generator is
  commented out): it only leaves the refund transactions out of the price, so what it does
  with a group that has a paid license does not depend on the group's refund transactions.
\<close>

theorem refund_rule_closes_each_open_deal:
  "(\<forall>d. distinct (getDeals finder (map T txs)) \<and> d \<in> set (getDeals finder (map T txs)) \<longrightarrow>
        filter (\<lambda>a. actionDeal a = Some d) (actionForRefund R finder (RefundEvent gs txs) txs) =
          (if dealstageOf d = Some (Stage CLOSED_LOST) then []
           else [UpdateAction gs d [(''dealstage'', Stage CLOSED_LOST)]])) \<and>
   set (actionForRefund R finder (RefundEvent gs txs) txs) \<subseteq>
     (\<lambda>d. UpdateAction gs d [(''dealstage'', Stage CLOSED_LOST)]) ` set (getDeals finder (map T txs)) \<and>
   (\<forall>E pd ptd groups g.
      \<not> list_all isFreeLicense (map license groups) \<longrightarrow>
      generateActionsForMatchedGroup E pd ptd finder (map withoutRefunds groups) g =
      generateActionsForMatchedGroup E pd ptd finder groups g)"
proof (intro conjI allI impI)
  fix d
  assume h: "distinct (getDeals finder (map T txs)) \<and> d \<in> set (getDeals finder (map T txs))"
  have "count_list (filter (\<lambda>d. dealstageOf d \<noteq> Some (Stage CLOSED_LOST))
           (getDeals finder (map T txs))) d =
        (if dealstageOf d = Some (Stage CLOSED_LOST) then 0 else 1)"
    using h by (simp add: count_list_filter count_list_distinct)
  then show "filter (\<lambda>a. actionDeal a = Some d)
               (actionForRefund R finder (RefundEvent gs txs) txs) =
             (if dealstageOf d = Some (Stage CLOSED_LOST) then []
              else [UpdateAction gs d [(''dealstage'', Stage CLOSED_LOST)]])"
    by (simp add: actionForRefund_eq filter_map_target)
next
  show "set (actionForRefund R finder (RefundEvent gs txs) txs) \<subseteq>
     (\<lambda>d. UpdateAction gs d [(''dealstage'', Stage CLOSED_LOST)]) ` set (getDeals finder (map T txs))"
    by (auto simp: actionForRefund_eq)
next
  fix E :: env and pd ptd :: "string set" and groups :: relatedLicenseSet and g :: generator
  assume "\<not> list_all isFreeLicense (map license groups)"
  then show "generateActionsForMatchedGroup E pd ptd finder (map withoutRefunds groups) g =
             generateActionsForMatchedGroup E pd ptd finder groups g"
    by (rule classifier_ignores_refunds)
qed

theorem refund_rule_closes_each_open_deal_witness:
  "filter (\<lambda>a. actionDeal a = Some dealWon)
     (actionForRefund exampleRecords (DealFinder [dealWon]) (RefundEvent groupRefunded [purchaseTx])
        [purchaseTx]) =
     [UpdateAction groupRefunded dealWon [(''dealstage'', Stage CLOSED_LOST)]] \<and>
   generateActionsForMatchedGroup exampleEnv {''gmail.com''} {''partner.example''}
     (DealFinder [dealWon]) (map withoutRefunds groupRefunded) emptyGenerator = Inr emptyGenerator"
proof -
  note t = refund_rule_closes_each_open_deal[of "DealFinder [dealWon]" "[purchaseTx]"
      exampleRecords groupRefunded]
  have h: "distinct (getDeals (DealFinder [dealWon]) (map T [purchaseTx])) \<and>
           dealWon \<in> set (getDeals (DealFinder [dealWon]) (map T [purchaseTx]))"
    by code_simp
  have s: "dealstageOf dealWon \<noteq> Some (Stage CLOSED_LOST)" by code_simp
  have p: "\<not> list_all isFreeLicense (map license groupRefunded)" by code_simp
  from t h s have a: "filter (\<lambda>a. actionDeal a = Some dealWon)
     (actionForRefund exampleRecords (DealFinder [dealWon]) (RefundEvent groupRefunded [purchaseTx])
        [purchaseTx]) =
     [UpdateAction groupRefunded dealWon [(''dealstage'', Stage CLOSED_LOST)]]"
    by simp
  from t p have "generateActionsForMatchedGroup exampleEnv {''gmail.com''} {''partner.example''}
     (DealFinder [dealWon]) (map withoutRefunds groupRefunded) emptyGenerator =
     generateActionsForMatchedGroup exampleEnv {''gmail.com''} {''partner.example''}
     (DealFinder [dealWon]) groupRefunded emptyGenerator"
    by blast
  with a show ?thesis by (simp add: refunded_step)
qed

text \<open>
  The claim as it was stated fails on scenario C. The purchase \<open>purchaseTx\<close> of the group was
  refunded and the deal \<open>dealWon\<close> of its license is in stage CLOSED_WON: the refund rule
  asks for one update of that deal to CLOSED_LOST, and the classifier, and with it
  \<^verbatim>\<open>generateDeals\<close>, produces no action at all.
\<close>

theorem classifier_does_not_apply_refund_rule:
  "actionForRefund exampleRecords (DealFinder [dealWon]) (RefundEvent groupRefunded [purchaseTx])
     [purchaseTx] = [UpdateAction groupRefunded dealWon [(''dealstage'', Stage CLOSED_LOST)]] \<and>
   generateDealActions exampleEnv [groupRefunded] [dealWon] {''gmail.com''} {''partner.example''} =
     Inr emptyGenerator \<and>
   generateDeals exampleEnv (exampleData [groupRefunded] [dealWon]) = Inr emptyResult"
proof -
  have r: "recentGroups exampleEnv [groupRefunded] = [groupRefunded]" by code_simp
  have a: "generateDealActions exampleEnv [groupRefunded] [dealWon] {''gmail.com''}
             {''partner.example''} = Inr emptyGenerator"
    by (simp add: generateDealActions_def example_finder refunded_step emptyGenerator_def)
  then have "generateDeals exampleEnv (exampleData [groupRefunded] [dealWon]) = Inr emptyResult"
    by (simp add: generateDeals_def exampleData_def r emptyGenerator_def emptyResult_def)
  with refunded_rule a show ?thesis by simp
qed

subsection \<open>Domain exclusion\<close>

text \<open>
  C2. Take a group (not empty, as every group is) in which the technical-contact domain of
  every license is in the free-provider set or in the partner set. Whatever the deal finder
  answers, and even if it would fail, the classifier leaves the create and the update
  actions as they are and adds the group to the ignored sets, every license with the one
  reason \<^verbatim>\<open>bad-domains:\<close> followed by the distinct domains: the check comes before any deal
  is looked up. And \<^verbatim>\<open>generateDeals\<close> returns, with the group among its matches, the create
  requests, update requests and association changes it returns without it.
\<close>

theorem excluded_domains_group_is_ignored:
  assumes "groups \<noteq> []"
    and "\<forall>m \<in> set groups.
           case techDomain (license m) of
             None \<Rightarrow> False
           | Some d \<Rightarrow> d \<in> partnerDomains data \<or> d \<in> providerDomains data"
  shows "(\<forall>finder g.
            generateActionsForMatchedGroup E (providerDomains data) (partnerDomains data)
              finder groups g =
            Inr (g\<lparr>ignoredLicenseSets :=
                     ignoredLicenseSets g @
                       [map (\<lambda>l. (''bad-domains:'' @
                                    join '','' (map the (uniq (map techDomain (map license groups)))),
                                  l))
                          (map license groups)]\<rparr>)) \<and>
         (\<forall>gs1 gs2.
            map_sum (\<lambda>e. e) actionLists
              (generateDeals E (data\<lparr>allMatches := gs1 @ groups # gs2\<rparr>)) =
            map_sum (\<lambda>e. e) actionLists (generateDeals E (data\<lparr>allMatches := gs1 @ gs2\<rparr>)))"
  using bad_group_step[OF assms] deals_without_bad_group[OF assms]
  by (simp add: ignoreLicenses_def)

theorem excluded_domains_group_is_ignored_witness:
  "generateActionsForMatchedGroup exampleEnv {''gmail.com''} {''partner.example''}
     (DealFinder [dealPartner]) groupPartner emptyGenerator =
   Inr (emptyGenerator
          \<lparr>ignoredLicenseSets := [[(''bad-domains:partner.example'', partnerLicense)]]\<rparr>) \<and>
   map_sum (\<lambda>e. e) actionLists
     (generateDeals exampleEnv (exampleData [groupEval, groupPartner] [dealPartner])) =
   map_sum (\<lambda>e. e) actionLists (generateDeals exampleEnv (exampleData [groupEval] [dealPartner]))"
proof -
  let ?data = "exampleData [] [dealPartner]"
  have h1: "groupPartner \<noteq> []" by code_simp
  have h2: "\<forall>m \<in> set groupPartner.
              case techDomain (license m) of
                None \<Rightarrow> False
              | Some d \<Rightarrow> d \<in> partnerDomains ?data \<or> d \<in> providerDomains ?data"
    by code_simp
  have r: "map (\<lambda>l. (''bad-domains:'' @
                      join '','' (map the (uniq (map techDomain (map license groupPartner)))), l))
             (map license groupPartner) =
           [(''bad-domains:partner.example'', partnerLicense)]"
    by code_simp
  have d: "providerDomains ?data = {''gmail.com''}" "partnerDomains ?data = {''partner.example''}"
    "?data\<lparr>allMatches := [groupEval] @ groupPartner # []\<rparr> =
       exampleData [groupEval, groupPartner] [dealPartner]"
    "?data\<lparr>allMatches := [groupEval] @ []\<rparr> = exampleData [groupEval] [dealPartner]"
    by (simp_all add: exampleData_def)
  from excluded_domains_group_is_ignored[OF h1 h2, of exampleEnv]
  have "generateActionsForMatchedGroup exampleEnv (providerDomains ?data) (partnerDomains ?data)
          (DealFinder [dealPartner]) groupPartner emptyGenerator =
        Inr (emptyGenerator\<lparr>ignoredLicenseSets :=
               ignoredLicenseSets emptyGenerator @
                 [map (\<lambda>l. (''bad-domains:'' @
                        join '','' (map the (uniq (map techDomain (map license groupPartner)))), l))
                    (map license groupPartner)]\<rparr>)"
    and "map_sum (\<lambda>e. e) actionLists
           (generateDeals exampleEnv (?data\<lparr>allMatches := [groupEval] @ groupPartner # []\<rparr>)) =
         map_sum (\<lambda>e. e) actionLists
           (generateDeals exampleEnv (?data\<lparr>allMatches := [groupEval] @ []\<rparr>))"
    by blast+
  then show ?thesis
    unfolding r d by (simp add: emptyGenerator_def)
qed

subsection \<open>No-op suppression\<close>

text \<open>
  C3. An update candidate whose merged properties (the recomputed ones with the requested
  overrides on top) all equal what its deal stores adds nothing to \<^verbatim>\<open>dealsToUpdate\<close>. And
  every update \<^verbatim>\<open>generateDeals\<close> returns has at least one property, each with a value that
  differs from the one a deal of the snapshot with that id stores: an update with an empty
  property bag is never emitted.
\<close>

theorem unchanged_update_is_not_emitted:
  "(\<forall>a out old ps.
      find (\<lambda>oldDeal. deal_id oldDeal = u_id a) deals = Some old \<and>
      mergedProperties E a = Inr ps \<and>
      list_all (\<lambda>(k, v). map_of (properties old) k = Some v) ps \<longrightarrow>
      (\<exists>out'. updateStep E deals contacts a out = Inr out' \<and>
              dealsToUpdate out' = dealsToUpdate out)) \<and>
   (\<forall>data res.
      generateDeals E data = Inr res \<longrightarrow>
      (\<forall>u \<in> set (dealsToUpdate res).
         du_properties u \<noteq> [] \<and>
         (\<exists>old \<in> set (initialDeals data). deal_id old = du_id u \<and>
            (\<forall>(k, v) \<in> set (du_properties u). map_of (properties old) k \<noteq> Some v))))"
proof (intro conjI allI impI)
  fix a out old ps
  assume h: "find (\<lambda>oldDeal. deal_id oldDeal = u_id a) deals = Some old \<and>
      mergedProperties E a = Inr ps \<and>
      list_all (\<lambda>(k, v). map_of (properties old) k = Some v) ps"
  then have "stripUnchanged ps (properties old) = []"
    using stripUnchanged_all_equal by blast
  with h show "\<exists>out'. updateStep E deals contacts a out = Inr out' \<and>
                 dealsToUpdate out' = dealsToUpdate out"
    by (auto simp: updateStep_def pushIfChanged_def pushAssociations_dealsToUpdate Let_def
        split: option.splits)
next
  fix data res
  assume "generateDeals E data = Inr res"
  then show "\<forall>u \<in> set (dealsToUpdate res).
         du_properties u \<noteq> [] \<and>
         (\<exists>old \<in> set (initialDeals data). deal_id old = du_id u \<and>
            (\<forall>(k, v) \<in> set (du_properties u). map_of (properties old) k \<noteq> Some v))"
    by (rule generateDeals_emits_changes)
qed

theorem unchanged_update_is_not_emitted_witness:
  "(\<exists>out'. updateStep exampleEnv [dealLost] exampleContacts closeLostAction emptyResult = Inr out' \<and>
           dealsToUpdate out' = []) \<and>
   generateDeals exampleEnv (exampleData [groupConversion] [dealEval]) = Inr conversionResult \<and>
   dealsToUpdate conversionResult \<noteq> [] \<and>
   list_all (\<lambda>u. du_properties u \<noteq> []) (dealsToUpdate conversionResult)"
proof -
  note t = unchanged_update_is_not_emitted[of "[dealLost]" exampleEnv exampleContacts]
  have h: "find (\<lambda>oldDeal. deal_id oldDeal = u_id closeLostAction) [dealLost] = Some dealLost \<and>
      mergedProperties exampleEnv closeLostAction = Inr (u_properties closeLostAction) \<and>
      list_all (\<lambda>(k, v). map_of (properties dealLost) k = Some v) (u_properties closeLostAction)"
    by code_simp
  from t h have
    "\<exists>out'. updateStep exampleEnv [dealLost] exampleContacts closeLostAction emptyResult = Inr out' \<and>
            dealsToUpdate out' = dealsToUpdate emptyResult"
    by blast
  then have p1:
    "\<exists>out'. updateStep exampleEnv [dealLost] exampleContacts closeLostAction emptyResult = Inr out' \<and>
            dealsToUpdate out' = []"
    by (simp add: emptyResult_def)
  have ne: "dealsToUpdate conversionResult \<noteq> []" by (simp add: conversionResult_def)
  from t conversion_generateDeals
  have "\<forall>u \<in> set (dealsToUpdate conversionResult). du_properties u \<noteq> []" by blast
  then have "list_all (\<lambda>u. du_properties u \<noteq> []) (dealsToUpdate conversionResult)"
    by (simp add: list_all_iff)
  with p1 ne conversion_generateDeals show ?thesis by blast
qed

subsection \<open>Idempotence\<close>

text \<open>
  C4 fails on the code. The group is an evaluation followed by a paid license that has no
  transaction yet, and there is no deal. The first run creates a deal in stage CLOSED_WON
  whose amount is \<^verbatim>\<open>(price ?? 0).toFixed(2)\<close>, that is \<^verbatim>\<open>"0.00"\<close>. On the snapshot with that
  deal, the same group and the same contacts, the second run asks for an update with no
  amount of its own (\<^verbatim>\<open>price && ...\<close>), the mapper recomputes the amount as
  \<^verbatim>\<open>amount.toString()\<close>, that is \<^verbatim>\<open>"0"\<close>, and this differs from the stored \<^verbatim>\<open>"0.00"\<close>: the
  second run returns one update, of the amount alone.
\<close>

theorem second_run_updates_the_amount:
  "generateDeals exampleEnv (exampleData [groupConversionNoPrice] []) = Inr firstRun \<and>
   applyResult [''1''] firstRun [] = [createdDeal] \<and>
   generateDeals exampleEnv
     (exampleData [groupConversionNoPrice] (applyResult [''1''] firstRun [])) = Inr secondRun \<and>
   dealsToUpdate secondRun = [\<lparr>du_id = ''1'', du_properties = [(''amount'', Str ''0'')]\<rparr>]"
  by (simp add: noPrice_first_run noPrice_applied noPrice_second_run) (simp add: secondRun_def)

subsection \<open>Stage monotonicity\<close>

text \<open>
  C5. No update that \<^verbatim>\<open>generateDeals\<close> returns sets the stage of a deal to EVAL, whatever the
  stage of the deal is, so none moves a deal from CLOSED_WON or CLOSED_LOST back to EVAL. And
  an update that the action generator produces for a deal in stage CLOSED_WON or CLOSED_LOST
  does not set the stage to EVAL: it comes from the refund rule and sets the stage to
  CLOSED_LOST.
\<close>

theorem no_update_reopens_a_closed_deal:
  "(\<forall>data res.
      generateDeals E data = Inr res \<longrightarrow>
      (\<forall>u \<in> set (dealsToUpdate res). (''dealstage'', Stage EVAL) \<notin> set (du_properties u))) \<and>
   (\<forall>events acts gs d ps.
      generateFrom R finder events = Inr acts \<and> UpdateAction gs d ps \<in> set acts \<and>
      (dealstageOf d = Some (Stage CLOSED_WON) \<or> dealstageOf d = Some (Stage CLOSED_LOST)) \<longrightarrow>
      (''dealstage'', Stage EVAL) \<notin> set ps \<and> ps = [(''dealstage'', Stage CLOSED_LOST)])"
proof (intro conjI allI impI)
  fix data res
  assume "generateDeals E data = Inr res"
  then show "\<forall>u \<in> set (dealsToUpdate res). (''dealstage'', Stage EVAL) \<notin> set (du_properties u)"
    by (rule generateDeals_noEval)
next
  fix events acts gs d ps
  assume h: "generateFrom R finder events = Inr acts \<and> UpdateAction gs d ps \<in> set acts \<and>
      (dealstageOf d = Some (Stage CLOSED_WON) \<or> dealstageOf d = Some (Stage CLOSED_LOST))"
  then have ps: "ps = [(''dealstage'', Stage CLOSED_LOST)]"
    using generateFrom_closed by blast
  then show "(''dealstage'', Stage EVAL) \<notin> set ps" by simp
  from ps show "ps = [(''dealstage'', Stage CLOSED_LOST)]" .
qed

theorem no_update_reopens_a_closed_deal_witness:
  "generateDeals exampleEnv (exampleData [groupConversion] [dealEval]) = Inr conversionResult \<and>
   list_all (\<lambda>u. (''dealstage'', Stage EVAL) \<notin> set (du_properties u))
     (dealsToUpdate conversionResult) \<and>
   generateFrom exampleRecords (DealFinder [dealWon]) [RefundEvent groupRefunded [purchaseTx]] =
     Inr [UpdateAction groupRefunded dealWon [(''dealstage'', Stage CLOSED_LOST)]] \<and>
   dealstageOf dealWon = Some (Stage CLOSED_WON)"
proof -
  note t = no_update_reopens_a_closed_deal[of exampleEnv exampleRecords "DealFinder [dealWon]"]
  from t conversion_generateDeals
  have "\<forall>u \<in> set (dealsToUpdate conversionResult).
          (''dealstage'', Stage EVAL) \<notin> set (du_properties u)"
    by blast
  then have a: "list_all (\<lambda>u. (''dealstage'', Stage EVAL) \<notin> set (du_properties u))
     (dealsToUpdate conversionResult)"
    by (simp add: list_all_iff)
  have g: "generateFrom exampleRecords (DealFinder [dealWon])
             [RefundEvent groupRefunded [purchaseTx]] =
           Inr [UpdateAction groupRefunded dealWon [(''dealstage'', Stage CLOSED_LOST)]]"
    by (simp add: generateFrom_def refunded_rule)
  have s: "dealstageOf dealWon = Some (Stage CLOSED_WON)" by code_simp
  from a g s conversion_generateDeals show ?thesis by simp
qed

subsection \<open>The all-free branch\<close>

text \<open>
  C6. A group that is not domain-excluded, whose licenses are all free (EVALUATION or
  OPEN_SOURCE) and that carries a transaction makes the classifier fail: it returns no
  generator, so no action and no ignored set. The failure is the assertion on the
  transactions, unless the deal finder has failed before it, on one of the licenses.
\<close>

theorem all_free_group_with_transaction_fails:
  assumes "\<not> fst (ignoring pd ptd groups g)"
    and "list_all isFreeLicense (map license groups)"
    and "concat (map transactions groups) \<noteq> []"
  shows "generateActionsForMatchedGroup E pd ptd finder groups g =
           Inl (case licenseDealsOf finder groups of Inl e \<Rightarrow> e | Inr _ \<Rightarrow> AssertionError)"
proof -
  from assms(3) have ne: "groups \<noteq> []" by auto
  have free: "list_all isFreeLicense (sortASC maintenanceStartDate (map license groups))"
    using assms(2) by (simp add: list_all_sortASC)
  obtain b g' where ig: "ignoring pd ptd groups g = (b, g')"
    by (cases "ignoring pd ptd groups g")
  with assms(1) have b: "b = False" by simp
  show ?thesis
    using ne free assms(3) ig b
    by (simp add: generateActionsForMatchedGroup_def groupDeal_def onlyEvals_def
        split: sum.splits list.splits)
qed

theorem all_free_group_with_transaction_fails_witness:
  "generateActionsForMatchedGroup exampleEnv {''gmail.com''} {''partner.example''}
     (DealFinder []) groupEvalWithTx emptyGenerator = Inl AssertionError"
proof -
  have h1: "\<not> fst (ignoring {''gmail.com''} {''partner.example''} groupEvalWithTx emptyGenerator)"
    by code_simp
  have h2: "list_all isFreeLicense (map license groupEvalWithTx)" by code_simp
  have h3: "concat (map transactions groupEvalWithTx) \<noteq> []" by code_simp
  have e: "(case licenseDealsOf (DealFinder []) groupEvalWithTx of
              Inl e \<Rightarrow> e | Inr _ \<Rightarrow> AssertionError) = AssertionError"
    by code_simp
  show ?thesis
    using all_free_group_with_transaction_fails[OF h1 h2 h3, of exampleEnv "DealFinder []"]
    unfolding e .
qed

subsection \<open>The price\<close>

text \<open>
  C7. Take a group in the mixed/paid branch: not domain-excluded, not all its licenses free.
  The price is the vendor amount of a transaction of the group that is not a refund and whose
  sale date is the least among those that are not refunds; there is no price exactly when
  every transaction of the group is a refund (or there is none). Every create action the
  classifier adds for the group has the amount \<^verbatim>\<open>toFixed(2)\<close> of the price, or of zero when
  there is none, and so has the deal made from it. Every update action it adds has, once
  \<^verbatim>\<open>generateDeals\<close> has merged it with the recomputed properties, the amount of the price, or
  of zero when there is none: written by \<^verbatim>\<open>toFixed(2)\<close> when the price is not zero and by
  \<^verbatim>\<open>toString\<close> when it is zero or missing.
\<close>

theorem price_is_first_sale_amount:
  assumes "generateActionsForMatchedGroup E pd ptd finder groups g = Inr g'"
    and "\<not> fst (ignoring pd ptd groups g)"
    and "\<not> list_all isFreeLicense (map license groups)"
  shows "(case priceOf groups of
            None \<Rightarrow> list_all (\<lambda>tx. saleType (purchaseDetails tx) = ''Refund'')
                      (concat (map transactions groups))
          | Some v \<Rightarrow>
              (\<exists>tx \<in> set (concat (map transactions groups)).
                 saleType (purchaseDetails tx) \<noteq> ''Refund'' \<and>
                 vendorAmount (purchaseDetails tx) = v \<and>
                 (\<forall>tx' \<in> set (concat (map transactions groups)).
                    saleType (purchaseDetails tx') \<noteq> ''Refund'' \<longrightarrow>
                    saleDate (purchaseDetails tx) \<le> saleDate (purchaseDetails tx')))) \<and>
         (\<exists>cs us.
            dealCreateActions g' = dealCreateActions g @ cs \<and>
            dealUpdateActions g' = dealUpdateActions g @ us \<and>
            (\<forall>c \<in> set cs.
               c_amount c = toFixed E 2 (case priceOf groups of None \<Rightarrow> 0 | Some v \<Rightarrow> v) \<and>
               (\<forall>contacts d. makeDealToCreate E contacts c = Inr d \<longrightarrow>
                  map_of (dc_properties d) ''amount'' =
                    Some (Str (toFixed E 2 (case priceOf groups of None \<Rightarrow> 0 | Some v \<Rightarrow> v))))) \<and>
            (\<forall>a \<in> set us. \<forall>ps. mergedProperties E a = Inr ps \<longrightarrow>
               map_of ps ''amount'' =
                 Some (Str (let v = (case priceOf groups of None \<Rightarrow> 0 | Some v \<Rightarrow> v)
                            in if v = 0 then numToString E v else toFixed E 2 v))))"
proof (rule conjI)
  show "case priceOf groups of
            None \<Rightarrow> list_all (\<lambda>tx. saleType (purchaseDetails tx) = ''Refund'')
                      (concat (map transactions groups))
          | Some v \<Rightarrow>
              (\<exists>tx \<in> set (concat (map transactions groups)).
                 saleType (purchaseDetails tx) \<noteq> ''Refund'' \<and>
                 vendorAmount (purchaseDetails tx) = v \<and>
                 (\<forall>tx' \<in> set (concat (map transactions groups)).
                    saleType (purchaseDetails tx') \<noteq> ''Refund'' \<longrightarrow>
                    saleDate (purchaseDetails tx) \<le> saleDate (purchaseDetails tx')))"
  proof (cases "priceOf groups")
    case None
    then show ?thesis using priceOf_None[of groups] by (simp add: list_all_iff)
  next
    case (Some v)
    then show ?thesis using priceOf_Some[OF Some] by simp
  qed
next
  let ?v = "case priceOf groups of None \<Rightarrow> 0 | Some v \<Rightarrow> v"
  let ?Q = "\<lambda>cs us.
            dealCreateActions g' = dealCreateActions g @ cs \<and>
            dealUpdateActions g' = dealUpdateActions g @ us \<and>
            (\<forall>c \<in> set cs.
               c_amount c = toFixed E 2 ?v \<and>
               (\<forall>contacts d. makeDealToCreate E contacts c = Inr d \<longrightarrow>
                  map_of (dc_properties d) ''amount'' = Some (Str (toFixed E 2 ?v)))) \<and>
            (\<forall>a \<in> set us. \<forall>ps. mergedProperties E a = Inr ps \<longrightarrow>
               map_of ps ''amount'' =
                 Some (Str (let v = ?v in if v = 0 then numToString E v else toFixed E 2 v)))"
  from paid_branch[OF assms] obtain dealOpt where
    g': "g' = somePaid E groups (sortASC maintenanceStartDate (map license groups)) dealOpt g"
    by blast
  from somePaid_cases[of E groups "sortASC maintenanceStartDate (map license groups)" dealOpt g]
  consider (same) "g' = g"
    | (upd) d paid where
        "g' = pushUpdate (closedWonUpdate E d paid (paidTransactions groups) (priceOf groups)) g"
    | (cre) paid where
        "g' = pushCreate (closedWonCreate E paid (paidTransactions groups) (priceOf groups)) g"
    unfolding g' by blast
  then show "\<exists>cs us. ?Q cs us"
  proof cases
    case same
    then have "?Q [] []" by simp
    then show ?thesis by blast
  next
    case upd
    then have "?Q [] [closedWonUpdate E d paid (paidTransactions groups) (priceOf groups)]"
      using closedWonUpdate_amount[of E d paid groups] by (simp add: pushUpdate_def)
    then show ?thesis by blast
  next
    case cre
    then have "?Q [closedWonCreate E paid (paidTransactions groups) (priceOf groups)] []"
      using closedWonCreate_amount[of E _ paid groups]
      by (simp add: pushCreate_def) (simp add: closedWonCreate_def)
    then show ?thesis by blast
  qed
qed

theorem price_is_first_sale_amount_witness:
  "generateActionsForMatchedGroup exampleEnv {''gmail.com''} {''partner.example''}
     (DealFinder [dealEval]) groupConversion emptyGenerator =
     Inr (pushUpdate conversionUpdate emptyGenerator) \<and>
   priceOf groupConversion = Some (vendorAmount (purchaseDetails purchaseTx)) \<and>
   mergedProperties exampleEnv conversionUpdate = Inr conversionMerged \<and>
   map_of conversionMerged ''amount'' = Some (Str (toFixed exampleEnv 2 100))"
proof -
  have h2: "\<not> fst (ignoring {''gmail.com''} {''partner.example''} groupConversion emptyGenerator)"
    by (simp add: conversion_ignoring)
  have h3: "\<not> list_all isFreeLicense (map license groupConversion)" by code_simp
  from price_is_first_sale_amount[OF conversion_step h2 h3]
  obtain cs :: "DealCreateAction list" and us where
    u: "dealUpdateActions (pushUpdate conversionUpdate emptyGenerator) =
          dealUpdateActions emptyGenerator @ us"
    and a: "\<forall>a \<in> set us. \<forall>ps. mergedProperties exampleEnv a = Inr ps \<longrightarrow>
               map_of ps ''amount'' =
                 Some (Str (let v = (case priceOf groupConversion of None \<Rightarrow> 0 | Some v \<Rightarrow> v)
                            in if v = 0 then numToString exampleEnv v
                               else toFixed exampleEnv 2 v))"
    by blast
  from u have "us = [conversionUpdate]" by (simp add: pushUpdate_def emptyGenerator_def)
  with a conversion_merged have
    "map_of conversionMerged ''amount'' = Some (Str (toFixed exampleEnv 2 100))"
    by (simp add: conversion_price)
  moreover have "vendorAmount (purchaseDetails purchaseTx) = 100" by code_simp
  ultimately show ?thesis
    using conversion_step conversion_price conversion_merged by simp
qed

subsection \<open>Scenario A\<close>

text \<open>
  C8. A group of exactly one EVALUATION license that is active, with no transaction, that is
  not domain-excluded and for which the deal finder finds no deal: the classifier produces
  exactly one create action, with stage EVAL and amount \<^verbatim>\<open>"0"\<close>, no update action and no
  ignored set; the deal made from that action carries the stage EVAL and the amount \<^verbatim>\<open>"0"\<close>.
\<close>

theorem single_active_evaluation_creates_eval_deal:
  assumes "licenseType l = ''EVALUATION''" and "status l = ''active''"
    and "\<not> fst (ignoring pd ptd [\<lparr>license = l, transactions = []\<rparr>] emptyGenerator)"
    and "getDeal (newDealFinder E deals) [L l] = Inr None"
  shows "generateDealActions E [[\<lparr>license = l, transactions = []\<rparr>]] deals pd ptd =
           Inr \<lparr>dealCreateActions =
                  [\<lparr>c_dealstage = EVAL, c_license = l, c_transactions = [], c_amount = ''0''\<rparr>],
                dealUpdateActions = [], ignoredLicenseSets = []\<rparr> \<and>
         (\<forall>contacts d.
            makeDealToCreate E contacts
              \<lparr>c_dealstage = EVAL, c_license = l, c_transactions = [], c_amount = ''0''\<rparr> = Inr d \<longrightarrow>
            map_of (dc_properties d) ''dealstage'' = Some (Stage EVAL) \<and>
            map_of (dc_properties d) ''amount'' = Some (Str ''0''))"
proof (rule conjI)
  obtain b g' where ig: "ignoring pd ptd [\<lparr>license = l, transactions = []\<rparr>] emptyGenerator = (b, g')"
    by (cases "ignoring pd ptd [\<lparr>license = l, transactions = []\<rparr>] emptyGenerator")
  with assms(3) have b: "b = False" by simp
  show "generateDealActions E [[\<lparr>license = l, transactions = []\<rparr>]] deals pd ptd =
           Inr \<lparr>dealCreateActions =
                  [\<lparr>c_dealstage = EVAL, c_license = l, c_transactions = [], c_amount = ''0''\<rparr>],
                dealUpdateActions = [], ignoredLicenseSets = []\<rparr>"
    using assms(1,2,4) ig b
    by (simp add: generateDealActions_def generateActionsForMatchedGroup_def emptyGenerator_def
        groupDeal_def licenseDealsOf_def onlyEvals_def sortASC_def isFreeLicense_def
        pushCreate_def)
next
  show "\<forall>contacts d.
            makeDealToCreate E contacts
              \<lparr>c_dealstage = EVAL, c_license = l, c_transactions = [], c_amount = ''0''\<rparr> = Inr d \<longrightarrow>
            map_of (dc_properties d) ''dealstage'' = Some (Stage EVAL) \<and>
            map_of (dc_properties d) ''amount'' = Some (Str ''0'')"
    by (auto simp: makeDealToCreate_def map_of_assign Let_def split: sum.splits)
qed

theorem single_active_evaluation_creates_eval_deal_witness:
  "generateDealActions exampleEnv [groupEval] [dealWon] {''gmail.com''} {''partner.example''} =
     Inr \<lparr>dealCreateActions =
            [\<lparr>c_dealstage = EVAL, c_license = evalLicense, c_transactions = [],
              c_amount = ''0''\<rparr>],
          dealUpdateActions = [], ignoredLicenseSets = []\<rparr>"
proof -
  have h1: "licenseType evalLicense = ''EVALUATION''" by code_simp
  have h2: "status evalLicense = ''active''" by code_simp
  have h3: "\<not> fst (ignoring {''gmail.com''} {''partner.example''}
                   [\<lparr>license = evalLicense, transactions = []\<rparr>] emptyGenerator)"
    by code_simp
  have h4: "getDeal (newDealFinder exampleEnv [dealWon]) [L evalLicense] = Inr None"
    by code_simp
  show ?thesis
    using single_active_evaluation_creates_eval_deal[OF h1 h2 h3 h4]
    by (simp add: groupEval_def)
qed

subsection \<open>Association diffing\<close>

text \<open>
  C9, as amended. For an update action that carries a license, the desired contact ids are
  recomputed from the contact directory: the ids of the technical contact, of the billing
  contact and of the partner billing contact that the directory knows, each id once. The
  step adds one association-create entry for every desired id that is not in the stored
  list of the deal, and one association-remove entry for every entry of the stored list
  whose id is not desired: exactly one per such id when the stored list holds it once, and
  as many as the stored list repeats it otherwise.
\<close>

theorem associations_follow_the_contact_diff:
  assumes "updateStep E deals contacts a out = Inr out'"
    and "u_license a = Some lic"
  shows "\<exists>old cs rs.
      find (\<lambda>oldDeal. deal_id oldDeal = u_id a) deals = Some old \<and>
      associationsToCreate out' =
        associationsToCreate out @ map (\<lambda>c. \<lparr>contactId = c, dealId = deal_id old\<rparr>) cs \<and>
      associationsToRemove out' =
        associationsToRemove out @ map (\<lambda>c. \<lparr>contactId = c, dealId = deal_id old\<rparr>) rs \<and>
      distinct (contactIdsForLicense contacts lic) \<and>
      set (contactIdsForLicense contacts lic) =
        {hs_object_id c | c.
           contacts (email (technicalContact (contactDetails lic))) = Some c \<or>
           lookupOptional contacts
             (map_option email (billingContact (contactDetails lic))) = Some c \<or>
           lookupOptional contacts
             (case partnerDetails lic of None \<Rightarrow> None
              | Some pd \<Rightarrow> map_option email (partnerBillingContact pd)) = Some c} \<and>
      (\<forall>c. count_list cs c =
         (if c \<in> set (contactIdsForLicense contacts lic) \<and> c \<notin> set (contactIds old)
          then 1 else 0)) \<and>
      (\<forall>c. count_list rs c =
         (if c \<in> set (contactIdsForLicense contacts lic) then 0
          else count_list (contactIds old) c))"
proof (rule updateStep_InrD[OF assms(1)])
  fix old ps
  assume f: "find (\<lambda>oldDeal. deal_id oldDeal = u_id a) deals = Some old"
    and o: "out' = pushIfChanged (u_id a) ps old
              (case u_license a of None \<Rightarrow> out
               | Some lic \<Rightarrow> pushAssociations contacts lic old out)"
  let ?new = "contactIdsForLicense contacts lic"
  have c: "associationsToCreate out' =
        associationsToCreate out @
          map (\<lambda>c. \<lparr>contactId = c, dealId = deal_id old\<rparr>)
            (creatingAssociatedContactIds (contactIds old) ?new)"
    and r: "associationsToRemove out' =
        associationsToRemove out @
          map (\<lambda>c. \<lparr>contactId = c, dealId = deal_id old\<rparr>)
            (removingAssociatedContactIds (contactIds old) ?new)"
    by (simp_all add: o assms(2) pushIfChanged_associations pushAssociations_def Let_def)
  show ?thesis
    apply (rule exI[of _ old])
    apply (rule exI[of _ "creatingAssociatedContactIds (contactIds old) ?new"])
    apply (rule exI[of _ "removingAssociatedContactIds (contactIds old) ?new"])
    using f c r distinct_contactIdsForLicense[of contacts lic]
      set_contactIdsForLicense[of contacts lic]
    by (simp add: count_creating count_removing)
qed

theorem associations_follow_the_contact_diff_witness:
  "\<exists>old cs rs.
      find (\<lambda>oldDeal. deal_id oldDeal = u_id conversionUpdate) [dealEval] = Some old \<and>
      associationsToCreate conversionResult =
        associationsToCreate emptyResult @
          map (\<lambda>c. \<lparr>contactId = c, dealId = deal_id old\<rparr>) cs \<and>
      associationsToRemove conversionResult =
        associationsToRemove emptyResult @
          map (\<lambda>c. \<lparr>contactId = c, dealId = deal_id old\<rparr>) rs \<and>
      distinct (contactIdsForLicense exampleContacts paidLicense) \<and>
      set (contactIdsForLicense exampleContacts paidLicense) =
        {hs_object_id c | c.
           exampleContacts (email (technicalContact (contactDetails paidLicense))) = Some c \<or>
           lookupOptional exampleContacts
             (map_option email (billingContact (contactDetails paidLicense))) = Some c \<or>
           lookupOptional exampleContacts
             (case partnerDetails paidLicense of None \<Rightarrow> None
              | Some pd \<Rightarrow> map_option email (partnerBillingContact pd)) = Some c} \<and>
      (\<forall>c. count_list cs c =
         (if c \<in> set (contactIdsForLicense exampleContacts paidLicense) \<and>
             c \<notin> set (contactIds old)
          then 1 else 0)) \<and>
      (\<forall>c. count_list rs c =
         (if c \<in> set (contactIdsForLicense exampleContacts paidLicense) then 0
          else count_list (contactIds old) c))"
  by (rule associations_follow_the_contact_diff[OF conversion_updateStep conversion_fields(2)])

text \<open>
  The claim as it was stated fails when the stored list repeats an id. In scenario B the
  deal \<open>dealEval\<close> stores the contact \<^verbatim>\<open>c9\<close> twice and the license resolves to \<^verbatim>\<open>c1\<close> alone:
  \<^verbatim>\<open>generateDeals\<close> returns two association-remove entries for \<^verbatim>\<open>c9\<close>, not one.
\<close>

theorem repeated_stored_contact_is_removed_twice:
  "generateDeals exampleEnv (exampleData [groupConversion] [dealEval]) = Inr conversionResult \<and>
   contactIds dealEval = [''c9'', ''c9''] \<and>
   contactIdsForLicense exampleContacts paidLicense = [''c1''] \<and>
   associationsToRemove conversionResult =
     [\<lparr>contactId = ''c9'', dealId = ''5''\<rparr>, \<lparr>contactId = ''c9'', dealId = ''5''\<rparr>] \<and>
   count_list (associationsToRemove conversionResult) \<lparr>contactId = ''c9'', dealId = ''5''\<rparr> = 2"
  by (simp add: conversion_generateDeals conversion_contacts) (simp add: conversionResult_def)

subsection \<open>The 90-day filter\<close>

text \<open>
  C10. A group in which the maintenance of every license started more than 90 days
  (7776000000 ms) before the current time is dropped before classification:
  \<^verbatim>\<open>generateDeals\<close> returns with it exactly what it returns without it, the same create and
  update requests, association changes and ignored sets, and the same failure if it fails.
\<close>

theorem old_group_is_excluded:
  assumes "\<forall>m \<in> set g.
             case dateGetTime E (maintenanceStartDate (license m)) of
               None \<Rightarrow> False
             | Some t \<Rightarrow> dateNow E - t > 7776000000"
  shows "generateDeals E (data\<lparr>allMatches := gs1 @ g # gs2\<rparr>) =
         generateDeals E (data\<lparr>allMatches := gs1 @ gs2\<rparr>)"
proof -
  have "recentGroups E (gs1 @ g # gs2) = recentGroups E (gs1 @ gs2)"
    using recentGroups_old[OF assms] recentGroups_Cons[of E g gs2]
    by (simp add: recentGroups_append)
  then show ?thesis
    by (simp add: generateDeals_def cong: sum.case_cong)
qed

theorem old_group_is_excluded_witness:
  "generateDeals exampleEnv (exampleData [groupEval, groupOld] []) =
     generateDeals exampleEnv (exampleData [groupEval] []) \<and>
   generateDeals exampleEnv (exampleData [groupOld] []) = Inr emptyResult"
proof -
  have h: "\<forall>m \<in> set groupOld.
             case dateGetTime exampleEnv (maintenanceStartDate (license m)) of
               None \<Rightarrow> False
             | Some t \<Rightarrow> dateNow exampleEnv - t > 7776000000"
    by code_simp
  have e: "generateDeals exampleEnv (exampleData [] []) = Inr emptyResult" by code_simp
  show ?thesis
    using old_group_is_excluded[OF h, where data = "exampleData [] []" and ?gs1.0 = "[groupEval]"
          and ?gs2.0 = "[]"]
      old_group_is_excluded[OF h, where data = "exampleData [] []" and ?gs1.0 = "[]"
          and ?gs2.0 = "[]"] e
    by (simp add: exampleData_def)
qed

end
